theory Spec2Isabelle
  imports Main
begin

section \<open>The People roster and the incoming contact\<close>

text \<open>
  The People sheet is modelled by what \<^verbatim>\<open>getDataRange().getValues()\<close> returns:
  a list of rows, row 0 being the header row, every cell a string.  The number of
  rows is what \<^verbatim>\<open>getLastRow()\<close> returns.  A spreadsheet without a People sheet
  is \<open>None\<close> (\<^verbatim>\<open>getSheetByName\<close> returns \<^verbatim>\<open>null\<close>).

  Reading a cell outside the stored rows yields the empty string, and a row that has
  been written is a row of the grid, also when all its cells are empty.  A sheet with no
  content at all is the grid of one empty cell; on it the host refuses the header
  range, which has no column.  \<open>addOrUpdatePersonInPeopleSheet\<close> below is the state
  a call leaves once the header range has been read, and
  \<open>addOrUpdatePersonInPeopleSheet_call\<close> is the call with that refusal.
\<close>

type_synonym cell = string
type_synonym grid = "cell list list"

text \<open>
  The \<^verbatim>\<open>data\<close> object handed over by the form handlers.  Every property may be
  absent (\<^verbatim>\<open>undefined\<close>, here \<open>None\<close>).
\<close>

record contact =
  name :: "string option"
  email :: "string option"
  phone :: "string option"
  category :: "string option"
  status :: "string option"
  role :: "string option"
  contact_notes :: "string option"

text \<open>One constructor for each \<^verbatim>\<open>Logger.log\<close> call of the function.\<close>

datatype log_entry =
    PeopleSheetNotFound
  | RequiredColumnsNotFound
  | UpdatedExisting "string option" "string option" int
  | AddedNew "string option" "string option" int

record spreadsheet =
  people :: "grid option"
  logger :: "log_entry list"

section \<open>JavaScript values and arrays\<close>

text \<open>\<^verbatim>\<open>x || ''\<close> for \<^verbatim>\<open>x\<close> a string or \<^verbatim>\<open>undefined\<close>.\<close>

definition orEmpty :: "string option \<Rightarrow> string" where
  "orEmpty x = (case x of None \<Rightarrow> '''' | Some s \<Rightarrow> s)"

text \<open>
  \<^verbatim>\<open>Array.prototype.findIndex\<close>: the index of the first element satisfying the
  predicate, \<open>-1\<close> when there is none.
\<close>

fun findIndexFrom :: "('a \<Rightarrow> bool) \<Rightarrow> 'a list \<Rightarrow> int \<Rightarrow> int" where
  "findIndexFrom P [] i = - 1"
| "findIndexFrom P (x # xs) i = (if P x then i else findIndexFrom P xs (i + 1))"

definition findIndex :: "('a \<Rightarrow> bool) \<Rightarrow> 'a list \<Rightarrow> int" where
  "findIndex P xs = findIndexFrom P xs 0"

text \<open>
  Reading \<^verbatim>\<open>a[i]\<close> from an array: \<open>None\<close> is \<^verbatim>\<open>undefined\<close>, which is what an
  index outside the array gives.
\<close>

definition arrayGet :: "'a list \<Rightarrow> int \<Rightarrow> 'a option" where
  "arrayGet a i = (if 0 \<le> i \<and> nat i < length a then Some (a ! nat i) else None)"

text \<open>
  \<^verbatim>\<open>rowData\<close> starts as \<^verbatim>\<open>[]\<close> and is assigned by index, so it can have holes:
  a sparse array is a list of optional elements.  An assignment past the end extends
  the array; an assignment at a negative index (\<^verbatim>\<open>rowData[-1] = ''\<close>) sets a property
  that is no element, so elements and length stay as they are.
\<close>

type_synonym 'a sparse = "'a option list"

definition sparseGet :: "'a sparse \<Rightarrow> int \<Rightarrow> 'a option" where
  "sparseGet a i = (if 0 \<le> i \<and> nat i < length a then a ! nat i else None)"

definition sparseSet :: "'a sparse \<Rightarrow> int \<Rightarrow> 'a \<Rightarrow> 'a sparse" where
  "sparseSet a i v =
     (if i < 0 then a
      else if nat i < length a then a[nat i := Some v]
      else a @ replicate (nat i - length a) None @ [Some v])"

text \<open>
  The loop \<^verbatim>\<open>for (let i = 0; i < headers.length; i++) if (rowData[i] === undefined) rowData[i] = ''\<close>.
\<close>

definition fillUndefined :: "nat \<Rightarrow> string sparse \<Rightarrow> string sparse" where
  "fillUndefined n rowData =
     fold (\<lambda>i r. if sparseGet r (int i) = None then sparseSet r (int i) '''' else r)
       [0..<n] rowData"

text \<open>
  The values handed to \<^verbatim>\<open>setValues\<close>.  After \<open>fillUndefined\<close> no hole is left
  (lemma \<open>rowValues_fill\<close> below), so the value chosen for a hole is never used.
\<close>

definition rowValues :: "string sparse \<Rightarrow> cell list" where
  "rowValues rowData = map orEmpty rowData"

section \<open>The sheet operations the function calls\<close>

text \<open>
  \<^verbatim>\<open>getLastColumn()\<close>: the position of the last column that has content, 0 for a
  sheet with no content at all.  A cell has content when it is not the empty string.
\<close>

definition lastContent :: "cell list \<Rightarrow> nat" where
  "lastContent row = length (dropWhile (\<lambda>c. c = '''') (rev row))"

definition getLastColumn :: "grid \<Rightarrow> int" where
  "getLastColumn sheet = int (fold max (map lastContent sheet) 0)"

text \<open>
  \<^verbatim>\<open>getRange(1, 1, 1, getLastColumn()).getValues()[0]\<close> on a sheet with content:
  the first row of the grid.  On a sheet with no content the range has no column and
  the host throws instead (\<open>addOrUpdatePersonInPeopleSheet_call\<close> below).
\<close>

definition getHeaders :: "grid \<Rightarrow> cell list" where
  "getHeaders sheet = (case sheet of [] \<Rightarrow> [] | h # _ \<Rightarrow> h)"

text \<open>\<^verbatim>\<open>getRange(row, col).getValue()\<close>, one-based.\<close>

definition getValue :: "grid \<Rightarrow> int \<Rightarrow> int \<Rightarrow> cell" where
  "getValue sheet r c =
     (case arrayGet sheet (r - 1) of
        None \<Rightarrow> ''''
      | Some row \<Rightarrow> orEmpty (arrayGet row (c - 1)))"

text \<open>\<^verbatim>\<open>getLastRow()\<close>\<close>

definition getLastRow :: "grid \<Rightarrow> int" where
  "getLastRow sheet = int (length sheet)"

text \<open>
  \<^verbatim>\<open>getRange(row, 1, 1, vals.length).setValues([vals])\<close>, one-based: the first
  \<open>length vals\<close> cells of the row are replaced; a row past the last one is created.
\<close>

definition setValues :: "grid \<Rightarrow> int \<Rightarrow> cell list \<Rightarrow> grid" where
  "setValues sheet r vals =
     (let k = nat (r - 1) in
      if k < length sheet then sheet[k := vals @ drop (length vals) (sheet ! k)]
      else sheet @ replicate (k - length sheet) [] @ [vals])"

definition Logger_log :: "log_entry \<Rightarrow> spreadsheet \<Rightarrow> spreadsheet" where
  "Logger_log e ss = ss\<lparr>logger := logger ss @ [e]\<rparr>"

section \<open>addOrUpdatePersonInPeopleSheet\<close>

text \<open>
  The scan for an existing row, \<^verbatim>\<open>for (let i = 1; i < allData.length; i++)\<close>, leaving
  at the first row whose cell in the Email column is \<^verbatim>\<open>===\<close> to \<^verbatim>\<open>data.email\<close>.
  The result is \<^verbatim>\<open>existingRowIndex\<close>, \<open>-1\<close> when no row matched.
\<close>

function findExistingRow :: "grid \<Rightarrow> int \<Rightarrow> string option \<Rightarrow> nat \<Rightarrow> int" where
  "findExistingRow allData emailColIndex dataEmail i =
     (if i < length allData then
        (if arrayGet (allData ! i) (emailColIndex - 1) = dataEmail then int i
         else findExistingRow allData emailColIndex dataEmail (Suc i))
      else - 1)"
  by pat_completeness auto
termination
  by (relation "measure (\<lambda>(allData, c, e, i). length allData - i)") auto

declare findExistingRow.simps [simp del]

text \<open>
  The six guarded assignments that format \<^verbatim>\<open>rowData\<close>; a column index of 0
  (header not found) skips the assignment.
\<close>

definition formatRowData ::
  "int \<Rightarrow> int \<Rightarrow> int \<Rightarrow> int \<Rightarrow> int \<Rightarrow> int \<Rightarrow> contact \<Rightarrow> string sparse" where
  "formatRowData nameColIndex categoryColIndex roleColIndex statusColIndex
       emailColIndex phoneColIndex data =
     (let rowData = [];
          rowData = (if nameColIndex \<noteq> 0
                     then sparseSet rowData (nameColIndex - 1) (orEmpty (name data))
                     else rowData);
          rowData = (if categoryColIndex \<noteq> 0
                     then sparseSet rowData (categoryColIndex - 1) (orEmpty (category data))
                     else rowData);
          rowData = (if roleColIndex \<noteq> 0
                     then sparseSet rowData (roleColIndex - 1) (orEmpty (role data))
                     else rowData);
          rowData = (if statusColIndex \<noteq> 0
                     then sparseSet rowData (statusColIndex - 1) (orEmpty (status data))
                     else rowData);
          rowData = (if emailColIndex \<noteq> 0
                     then sparseSet rowData (emailColIndex - 1) (orEmpty (email data))
                     else rowData);
          rowData = (if phoneColIndex \<noteq> 0
                     then sparseSet rowData (phoneColIndex - 1) (orEmpty (phone data))
                     else rowData)
      in rowData)"

definition addOrUpdatePersonInPeopleSheet :: "contact \<Rightarrow> spreadsheet \<Rightarrow> spreadsheet" where
  "addOrUpdatePersonInPeopleSheet data ss =
     (case people ss of
        None \<Rightarrow> Logger_log PeopleSheetNotFound ss
      | Some peopleSheet \<Rightarrow>
          let headers = getHeaders peopleSheet;
              nameColIndex = findIndex (\<lambda>header. header = ''Name'') headers + 1;
              categoryColIndex = findIndex (\<lambda>header. header = ''Category'') headers + 1;
              roleColIndex = findIndex (\<lambda>header. header = ''Role/Position'') headers + 1;
              statusColIndex = findIndex (\<lambda>header. header = ''Status'') headers + 1;
              emailColIndex = findIndex (\<lambda>header. header = ''Email'') headers + 1;
              phoneColIndex = findIndex (\<lambda>header. header = ''Phone'') headers + 1;
              assignedTasksColIndex =
                findIndex (\<lambda>header. header = ''Assigned Tasks'') headers + 1
          in
          if nameColIndex = 0 \<or> categoryColIndex = 0 \<or> emailColIndex = 0
          then Logger_log RequiredColumnsNotFound ss
          else
            let allData = peopleSheet;
                existingRowIndex = findExistingRow allData emailColIndex (email data) 1;
                rowData = formatRowData nameColIndex categoryColIndex roleColIndex
                            statusColIndex emailColIndex phoneColIndex data
            in
            if existingRowIndex \<noteq> - 1 then
              let currentRow = existingRowIndex + 1;
                  rowData =
                    (if assignedTasksColIndex \<noteq> 0
                     then sparseSet rowData (assignedTasksColIndex - 1)
                            (getValue peopleSheet currentRow assignedTasksColIndex)
                     else sparseSet rowData (assignedTasksColIndex - 1) '''');
                  rowData = fillUndefined (length headers) rowData
              in Logger_log (UpdatedExisting (name data) (email data) currentRow)
                   (ss\<lparr>people := Some (setValues peopleSheet currentRow (rowValues rowData))\<rparr>)
            else
              let rowData =
                    (if assignedTasksColIndex \<noteq> 0
                     then sparseSet rowData (assignedTasksColIndex - 1) ''''
                     else rowData);
                  rowData = fillUndefined (length headers) rowData;
                  lastRow = getLastRow peopleSheet;
                  newRow = lastRow + 1
              in Logger_log (AddedNew (name data) (email data) newRow)
                   (ss\<lparr>people := Some (setValues peopleSheet newRow (rowValues rowData))\<rparr>))"

text \<open>
  The exception of \<^verbatim>\<open>getRange(row, column, numRows, numColumns)\<close> for a range of
  fewer than one column.
\<close>

datatype host_error = RangeWithoutColumns

text \<open>
  How a call ends: it returns, or it throws; either way with the spreadsheet as the
  call has left it.
\<close>

datatype outcome =
    Returned spreadsheet
  | Threw host_error spreadsheet

text \<open>
  The call as the host runs it.  After the check for the People sheet, the header range is
  \<^verbatim>\<open>getRange(1, 1, 1, peopleSheet.getLastColumn())\<close>; for a sheet with no content
  the last column is 0 and the host throws, before anything is logged or written.
  Otherwise the call returns, in the state given above.
\<close>

definition addOrUpdatePersonInPeopleSheet_call :: "contact \<Rightarrow> spreadsheet \<Rightarrow> outcome" where
  "addOrUpdatePersonInPeopleSheet_call data ss =
     (case people ss of
        None \<Rightarrow> Returned (Logger_log PeopleSheetNotFound ss)
      | Some peopleSheet \<Rightarrow>
          if getLastColumn peopleSheet < 1 then Threw RangeWithoutColumns ss
          else Returned (addOrUpdatePersonInPeopleSheet data ss))"


section \<open>Vocabulary of the properties\<close>

text \<open>
  The zero-based position of the column titled \<open>h\<close>, \<open>-1\<close> when the header row has
  no such title: the function's own lookup, before it adds 1.
\<close>

abbreviation col :: "string \<Rightarrow> grid \<Rightarrow> int" where
  "col h sheet \<equiv> findIndex (\<lambda>header. header = h) (getHeaders sheet)"

text \<open>
  The header row has the three columns the function requires, so that the check
  \<^verbatim>\<open>!nameColIndex || !categoryColIndex || !emailColIndex\<close> lets the call go on.
\<close>

definition requiredPresent :: "grid \<Rightarrow> bool" where
  "requiredPresent sheet \<longleftrightarrow>
     ''Name'' \<in> set (getHeaders sheet) \<and> ''Category'' \<in> set (getHeaders sheet) \<and>
     ''Email'' \<in> set (getHeaders sheet)"

text \<open>
  \<^verbatim>\<open>existingRowIndex\<close> as the function computes it from the sheet and the contact:
  the zero-based index into \<^verbatim>\<open>allData\<close> of the matched row, \<open>-1\<close> for no match.
\<close>

definition existingRowIndex :: "grid \<Rightarrow> contact \<Rightarrow> int" where
  "existingRowIndex sheet d = findExistingRow sheet (col ''Email'' sheet + 1) (email d) 1"

text \<open>The Email cell of row \<open>i\<close> as the scan reads it, \<^verbatim>\<open>allData[i][emailColIndex - 1]\<close>.\<close>

definition emailCell :: "grid \<Rightarrow> nat \<Rightarrow> string option" where
  "emailCell sheet i = arrayGet (sheet ! i) (col ''Email'' sheet)"

text \<open>The data rows (all rows but the header) whose Email cell is \<open>e\<close>.\<close>

definition recordsWithEmail :: "grid \<Rightarrow> string option \<Rightarrow> nat list" where
  "recordsWithEmail sheet e = filter (\<lambda>i. emailCell sheet i = e) [1..<length sheet]"

text \<open>No two data rows have the same Email cell.\<close>

definition uniqueEmails :: "grid \<Rightarrow> bool" where
  "uniqueEmails sheet \<longleftrightarrow> distinct (map (emailCell sheet) [1..<length sheet])"

text \<open>
  The row handed to \<^verbatim>\<open>setValues\<close>, in closed form; lemma \<open>rowValues_written\<close>
  below shows that the array the function builds is this row.  \<open>tv\<close> is the value
  placed in the Assigned Tasks column.  The cases are tried in the reverse order of the
  assignments, so that a later assignment to the same index would win, as it does in the
  array.
\<close>

definition mergedCell :: "cell list \<Rightarrow> contact \<Rightarrow> cell \<Rightarrow> nat \<Rightarrow> cell" where
  "mergedCell hs d tv j =
     (if int j = findIndex (\<lambda>header. header = ''Assigned Tasks'') hs then tv
      else if int j = findIndex (\<lambda>header. header = ''Phone'') hs then orEmpty (phone d)
      else if int j = findIndex (\<lambda>header. header = ''Email'') hs then orEmpty (email d)
      else if int j = findIndex (\<lambda>header. header = ''Status'') hs then orEmpty (status d)
      else if int j = findIndex (\<lambda>header. header = ''Role/Position'') hs then orEmpty (role d)
      else if int j = findIndex (\<lambda>header. header = ''Category'') hs then orEmpty (category d)
      else if int j = findIndex (\<lambda>header. header = ''Name'') hs then orEmpty (name d)
      else '''')"

definition mergedRow :: "cell list \<Rightarrow> contact \<Rightarrow> cell \<Rightarrow> cell list" where
  "mergedRow hs d tv = map (mergedCell hs d tv) [0..<length hs]"

section \<open>Example rosters and contacts\<close>

text \<open>
  The rosters and contacts at which the properties below are evaluated.  The first is
  the roster of the end-to-end scenario, with a Notes column added; the contacts have
  the shape the form handlers build.
\<close>

definition exampleHeaders :: "cell list" where
  "exampleHeaders = [''Name'', ''Category'', ''Role/Position'', ''Status'', ''Email'', ''Phone'',
     ''Assigned Tasks'', ''Notes'']"

definition exampleRoster :: grid where
  "exampleRoster = [exampleHeaders,
     [''Ana'', ''Volunteer'', '''', '''', ''ana@x.com'', '''', ''Signage'', ''Vegetarian'']]"

definition exampleContact :: contact where
  "exampleContact = \<lparr>name = Some ''Ana Lee'', email = Some ''ana@x.com'', phone = None,
     category = Some ''Volunteer'', status = Some ''Accepted'', role = Some ''Lead'',
     contact_notes = None\<rparr>"

definition duplicateRoster :: grid where
  "duplicateRoster = [[''Name'', ''Category'', ''Email''],
     [''Ann'', ''Staff'', ''a@x.com''],
     [''Al'', ''Staff'', ''a@x.com'']]"

definition annContact :: contact where
  "annContact = \<lparr>name = Some ''Ann B'', email = Some ''a@x.com'', phone = Some ''555'',
     category = Some ''Staff'', status = Some ''Accepted'', role = Some ''Lead'',
     contact_notes = Some ''''\<rparr>"

definition headerOnlyRoster :: grid where
  "headerOnlyRoster = [[''Name'', ''Category'', ''Email'']]"

definition lowerContact :: contact where
  "lowerContact = \<lparr>name = Some ''Al'', email = Some ''a@x.com'', phone = Some '''',
     category = Some ''Participant'', status = Some ''Registered'', role = Some '''',
     contact_notes = Some ''''\<rparr>"

definition upperContact :: contact where
  "upperContact = \<lparr>name = Some ''Al'', email = Some ''A@X.com'', phone = Some '''',
     category = Some ''Participant'', status = Some ''Registered'', role = Some '''',
     contact_notes = Some ''''\<rparr>"


definition noEmailContact :: contact where
  "noEmailContact = \<lparr>name = Some ''Cy'', email = None, phone = None,
     category = Some ''Volunteer'', status = Some ''Potential'', role = None,
     contact_notes = None\<rparr>"

definition blankKeyedRoster :: grid where
  "blankKeyedRoster = [[''Name'', ''Category'', ''Email''], [''Zed'', ''Staff'', '''']]"


definition phoneRoster :: grid where
  "phoneRoster = [[''Email'', ''Phone'', ''Name'', ''Category'']]"

section \<open>Facts about the model\<close>

subsection \<open>findIndex\<close>

lemma findIndexFrom_absent: "\<forall>x\<in>set xs. \<not> P x \<Longrightarrow> findIndexFrom P xs i = - 1"
  by (induction xs arbitrary: i) auto

lemma findIndexFrom_present:
  "\<exists>x\<in>set xs. P x \<Longrightarrow>
   \<exists>k<length xs. findIndexFrom P xs i = i + int k \<and> P (xs ! k) \<and> (\<forall>j<k. \<not> P (xs ! j))"
proof (induction xs arbitrary: i)
  case Nil
  then show ?case by simp
next
  case (Cons x xs)
  show ?case
  proof (cases "P x")
    case True
    then have "findIndexFrom P (x # xs) i = i + int 0 \<and> P ((x # xs) ! 0) \<and> (\<forall>j<0::nat. \<not> P ((x # xs) ! j))"
      by simp
    then show ?thesis by blast
  next
    case False
    with Cons.prems have "\<exists>x\<in>set xs. P x" by auto
    from Cons.IH [OF this, of "i + 1"] obtain k where k: "k < length xs"
      "findIndexFrom P xs (i + 1) = i + 1 + int k" "P (xs ! k)" "\<forall>j<k. \<not> P (xs ! j)"
      by blast
    have "\<forall>j<Suc k. \<not> P ((x # xs) ! j)"
      using False k(4) by (auto simp: nth_Cons split: nat.splits)
    with False k have "Suc k < length (x # xs) \<and> findIndexFrom P (x # xs) i = i + int (Suc k)
        \<and> P ((x # xs) ! Suc k) \<and> (\<forall>j<Suc k. \<not> P ((x # xs) ! j))"
      by simp
    then show ?thesis by blast
  qed
qed

lemma findIndex_absent: "h \<notin> set hs \<Longrightarrow> findIndex (\<lambda>header. header = h) hs = - 1"
  unfolding findIndex_def by (rule findIndexFrom_absent) auto

lemma findIndex_present:
  assumes "h \<in> set hs"
  obtains k where "k < length hs" "findIndex (\<lambda>header. header = h) hs = int k" "hs ! k = h"
    "\<forall>j<k. hs ! j \<noteq> h"
proof -
  from assms have "\<exists>x\<in>set hs. x = h" by simp
  from findIndexFrom_present [of hs "\<lambda>header. header = h" 0, OF this] that
  show thesis unfolding findIndex_def by auto
qed

lemma findIndex_zero_iff: "findIndex (\<lambda>header. header = h) hs + 1 = 0 \<longleftrightarrow> h \<notin> set hs"
proof (cases "h \<in> set hs")
  case True
  then obtain k where "findIndex (\<lambda>header. header = h) hs = int k"
    by (rule findIndex_present)
  with True show ?thesis by simp
next
  case False
  then show ?thesis by (simp add: findIndex_absent)
qed

lemma findIndex_eq_nat:
  "findIndex (\<lambda>header. header = h) hs = int j \<Longrightarrow> j < length hs \<and> hs ! j = h"
proof (cases "h \<in> set hs")
  case True
  assume a: "findIndex (\<lambda>header. header = h) hs = int j"
  from True obtain k where "k < length hs" "findIndex (\<lambda>header. header = h) hs = int k" "hs ! k = h"
    by (rule findIndex_present)
  with a show ?thesis by simp
next
  case False
  assume "findIndex (\<lambda>header. header = h) hs = int j"
  with False show ?thesis by (simp add: findIndex_absent)
qed

lemma findIndex_range:
  "findIndex (\<lambda>header. header = h) hs = - 1 \<or>
   (0 \<le> findIndex (\<lambda>header. header = h) hs \<and> findIndex (\<lambda>header. header = h) hs < int (length hs))"
proof (cases "h \<in> set hs")
  case True
  then obtain k where "k < length hs" "findIndex (\<lambda>header. header = h) hs = int k"
    by (rule findIndex_present)
  then show ?thesis by simp
next
  case False
  then show ?thesis by (simp add: findIndex_absent)
qed

subsection \<open>Sparse arrays\<close>

lemma length_sparseSet:
  "length (sparseSet a i v) = (if i < 0 then length a else max (length a) (nat i + 1))"
  by (auto simp: sparseSet_def)

lemma sparseGet_sparseSet:
  "sparseGet (sparseSet a i v) j = (if 0 \<le> i \<and> j = i then Some v else sparseGet a j)"
  by (auto simp: sparseSet_def sparseGet_def nth_append nth_list_update)

lemma sparseGet_Nil [simp]: "sparseGet [] j = None"
  by (simp add: sparseGet_def)

lemma fillUndefined_Suc:
  "fillUndefined (Suc n) a =
     (let r = fillUndefined n a in
      if sparseGet r (int n) = None then sparseSet r (int n) '''' else r)"
  by (simp add: fillUndefined_def Let_def)

lemma fillUndefined_0 [simp]: "fillUndefined 0 a = a"
  by (simp add: fillUndefined_def)

lemma length_fillUndefined: "length (fillUndefined n a) = max n (length a)"
proof (induction n)
  case 0
  then show ?case by simp
next
  case (Suc n)
  then show ?case
    by (auto simp: fillUndefined_Suc Let_def length_sparseSet sparseGet_def split: if_splits)
qed

lemma sparseGet_fillUndefined:
  "sparseGet (fillUndefined n a) j =
     (if 0 \<le> j \<and> j < int n then Some (orEmpty (sparseGet a j)) else sparseGet a j)"
proof (induction n)
  case 0
  then show ?case by auto
next
  case (Suc n)
  show ?case
  proof (cases "j = int n")
    case True
    then show ?thesis
      using Suc by (auto simp: fillUndefined_Suc Let_def sparseGet_sparseSet orEmpty_def)
  next
    case False
    then show ?thesis
      using Suc by (auto simp: fillUndefined_Suc Let_def sparseGet_sparseSet)
  qed
qed

lemma length_rowValues [simp]: "length (rowValues a) = length a"
  by (simp add: rowValues_def)

lemma nth_rowValues: "j < length a \<Longrightarrow> rowValues a ! j = orEmpty (sparseGet a (int j))"
  by (simp add: rowValues_def sparseGet_def)

lemma rowValues_fill:
  assumes "length a \<le> n"
  shows "length (rowValues (fillUndefined n a)) = n"
    and "j < n \<Longrightarrow> rowValues (fillUndefined n a) ! j = orEmpty (sparseGet a (int j))"
    and "None \<notin> set (fillUndefined n a)"
proof -
  show len: "length (rowValues (fillUndefined n a)) = n"
    using assms by (simp add: length_fillUndefined)
  show "rowValues (fillUndefined n a) ! j = orEmpty (sparseGet a (int j))" if "j < n"
    using that assms
    by (simp add: nth_rowValues length_fillUndefined sparseGet_fillUndefined orEmpty_def)
  show "None \<notin> set (fillUndefined n a)"
  proof
    assume "None \<in> set (fillUndefined n a)"
    then obtain k where k: "k < length (fillUndefined n a)" "fillUndefined n a ! k = None"
      by (auto simp: in_set_conv_nth)
    then have "k < n" using assms by (simp add: length_fillUndefined)
    then have "sparseGet (fillUndefined n a) (int k) \<noteq> None"
      by (simp add: sparseGet_fillUndefined)
    with k show False by (simp add: sparseGet_def)
  qed
qed

subsection \<open>The scan for an existing row\<close>

lemma findExistingRow_none:
  "findExistingRow g c e i = - 1 \<longleftrightarrow>
     (\<forall>k. i \<le> k \<and> k < length g \<longrightarrow> arrayGet (g ! k) (c - 1) \<noteq> e)"
proof (induction g c e i rule: findExistingRow.induct)
  case (1 allData emailColIndex dataEmail i)
  show ?case
  proof (cases "i < length allData")
    case False
    then show ?thesis by (auto simp: findExistingRow.simps [of allData emailColIndex dataEmail i])
  next
    case True
    show ?thesis
    proof (cases "arrayGet (allData ! i) (emailColIndex - 1) = dataEmail")
      case m: True
      with True show ?thesis
        by (auto simp: findExistingRow.simps [of allData emailColIndex dataEmail i])
    next
      case m: False
      have "(\<forall>k. i \<le> k \<and> k < length allData \<longrightarrow> arrayGet (allData ! k) (emailColIndex - 1) \<noteq> dataEmail)
        \<longleftrightarrow> (\<forall>k. Suc i \<le> k \<and> k < length allData \<longrightarrow> arrayGet (allData ! k) (emailColIndex - 1) \<noteq> dataEmail)"
        using m by (metis Suc_leI le_eq_less_or_eq Suc_leD)
      with True m 1 show ?thesis
        by (simp add: findExistingRow.simps [of allData emailColIndex dataEmail i])
    qed
  qed
qed

lemma findExistingRow_some:
  "findExistingRow g c e i = int k \<longleftrightarrow>
     (i \<le> k \<and> k < length g \<and> arrayGet (g ! k) (c - 1) = e \<and>
      (\<forall>j. i \<le> j \<and> j < k \<longrightarrow> arrayGet (g ! j) (c - 1) \<noteq> e))"
proof (induction g c e i rule: findExistingRow.induct)
  case (1 allData emailColIndex dataEmail i)
  show ?case
  proof (cases "i < length allData")
    case False
    then show ?thesis by (auto simp: findExistingRow.simps [of allData emailColIndex dataEmail i])
  next
    case True
    show ?thesis
    proof (cases "arrayGet (allData ! i) (emailColIndex - 1) = dataEmail")
      case m: True
      have "i = k \<longleftrightarrow>
          (i \<le> k \<and> k < length allData \<and> arrayGet (allData ! k) (emailColIndex - 1) = dataEmail \<and>
           (\<forall>j. i \<le> j \<and> j < k \<longrightarrow> arrayGet (allData ! j) (emailColIndex - 1) \<noteq> dataEmail))"
      proof
        assume "i = k"
        with True m show "i \<le> k \<and> k < length allData \<and>
            arrayGet (allData ! k) (emailColIndex - 1) = dataEmail \<and>
            (\<forall>j. i \<le> j \<and> j < k \<longrightarrow> arrayGet (allData ! j) (emailColIndex - 1) \<noteq> dataEmail)"
          by auto
      next
        assume r: "i \<le> k \<and> k < length allData \<and>
            arrayGet (allData ! k) (emailColIndex - 1) = dataEmail \<and>
            (\<forall>j. i \<le> j \<and> j < k \<longrightarrow> arrayGet (allData ! j) (emailColIndex - 1) \<noteq> dataEmail)"
        show "i = k"
        proof (rule ccontr)
          assume "i \<noteq> k"
          with r have "i \<le> i \<and> i < k" by simp
          with r m show False by blast
        qed
      qed
      with True m show ?thesis
        by (simp add: findExistingRow.simps [of allData emailColIndex dataEmail i])
    next
      case m: False
      have "(i \<le> k \<and> k < length allData \<and> arrayGet (allData ! k) (emailColIndex - 1) = dataEmail \<and>
             (\<forall>j. i \<le> j \<and> j < k \<longrightarrow> arrayGet (allData ! j) (emailColIndex - 1) \<noteq> dataEmail))
        \<longleftrightarrow> (Suc i \<le> k \<and> k < length allData \<and> arrayGet (allData ! k) (emailColIndex - 1) = dataEmail \<and>
             (\<forall>j. Suc i \<le> j \<and> j < k \<longrightarrow> arrayGet (allData ! j) (emailColIndex - 1) \<noteq> dataEmail))"
        using m by (metis Suc_leI le_eq_less_or_eq Suc_leD)
      with True m 1 show ?thesis
        by (simp add: findExistingRow.simps [of allData emailColIndex dataEmail i])
    qed
  qed
qed

lemma findExistingRow_cases:
  obtains "findExistingRow g c e i = - 1"
  | k where "findExistingRow g c e i = int k" "i \<le> k" "k < length g"
proof (cases "\<forall>k. i \<le> k \<and> k < length g \<longrightarrow> arrayGet (g ! k) (c - 1) \<noteq> e")
  case True
  then show ?thesis using that(1) by (simp add: findExistingRow_none)
next
  case False
  define k where "k = (LEAST k. i \<le> k \<and> k < length g \<and> arrayGet (g ! k) (c - 1) = e)"
  from False have ex: "\<exists>k. i \<le> k \<and> k < length g \<and> arrayGet (g ! k) (c - 1) = e" by blast
  from LeastI_ex [OF ex] have k: "i \<le> k" "k < length g" "arrayGet (g ! k) (c - 1) = e"
    unfolding k_def by blast+
  have "\<forall>j. i \<le> j \<and> j < k \<longrightarrow> arrayGet (g ! j) (c - 1) \<noteq> e"
  proof (intro allI impI)
    fix j assume j: "i \<le> j \<and> j < k"
    show "arrayGet (g ! j) (c - 1) \<noteq> e"
    proof
      assume "arrayGet (g ! j) (c - 1) = e"
      with j k(2) have "i \<le> j \<and> j < length g \<and> arrayGet (g ! j) (c - 1) = e" by simp
      then have "k \<le> j" unfolding k_def by (rule Least_le)
      with j show False by simp
    qed
  qed
  with k have "findExistingRow g c e i = int k" by (simp add: findExistingRow_some)
  with k that(2) show ?thesis by blast
qed

subsection \<open>The row that is written\<close>

lemma sparseSet_neg: "i < 0 \<Longrightarrow> sparseSet a i v = a"
  by (simp add: sparseSet_def)

lemma guarded_sparseSet:
  "(if i \<noteq> 0 then sparseSet a (i - 1) v else a) = sparseSet a (i - 1) v"
  by (simp add: sparseSet_neg)

lemma formatRowData_chain:
  "formatRowData n c r s e p d =
     sparseSet (sparseSet (sparseSet (sparseSet (sparseSet (sparseSet []
       (n - 1) (orEmpty (name d))) (c - 1) (orEmpty (category d))) (r - 1) (orEmpty (role d)))
       (s - 1) (orEmpty (status d))) (e - 1) (orEmpty (email d))) (p - 1) (orEmpty (phone d))"
  unfolding formatRowData_def Let_def by (simp only: guarded_sparseSet)

lemma orEmpty_simps [simp]: "orEmpty None = []" "orEmpty (Some v) = v"
  by (simp_all add: orEmpty_def)

lemma orEmpty_if: "orEmpty (if b then x else y) = (if b then orEmpty x else orEmpty y)"
  by simp

lemma nonneg_int_eq: "(0 \<le> x \<and> int j = x) = (int j = x)"
  by auto

lemma orEmpty_sparseGet_written:
  "orEmpty (sparseGet (sparseSet (formatRowData (n + 1) (c + 1) (r + 1) (s + 1) (e + 1) (p + 1) d)
       t tv) (int j)) =
     (if int j = t then tv
      else if int j = p then orEmpty (phone d)
      else if int j = e then orEmpty (email d)
      else if int j = s then orEmpty (status d)
      else if int j = r then orEmpty (role d)
      else if int j = c then orEmpty (category d)
      else if int j = n then orEmpty (name d)
      else [])"
  unfolding formatRowData_chain sparseGet_sparseSet sparseGet_Nil add_diff_cancel_right'
    nonneg_int_eq orEmpty_if orEmpty_simps
  by (rule refl)

lemma length_sparseSet_le:
  "length a \<le> w \<Longrightarrow> i < int w \<Longrightarrow> length (sparseSet a i v) \<le> w"
  by (auto simp: length_sparseSet)

lemma length_formatRowData:
  assumes "n < int w" "c < int w" "r < int w" "s < int w" "e < int w" "p < int w"
  shows "length (formatRowData (n + 1) (c + 1) (r + 1) (s + 1) (e + 1) (p + 1) d) \<le> w"
  unfolding formatRowData_chain using assms
  by (intro length_sparseSet_le) simp_all

lemma findIndex_less: "findIndex (\<lambda>header. header = h) hs < int (length hs)"
  using findIndex_range [of h hs] by auto

lemma length_mergedRow [simp]: "length (mergedRow hs d tv) = length hs"
  by (simp add: mergedRow_def)

lemma rowValues_written:
  fixes hs :: "cell list"
  defines "c \<equiv> \<lambda>h. findIndex (\<lambda>header. header = h) hs"
  shows "rowValues (fillUndefined (length hs)
           (sparseSet (formatRowData (c ''Name'' + 1) (c ''Category'' + 1) (c ''Role/Position'' + 1)
              (c ''Status'' + 1) (c ''Email'' + 1) (c ''Phone'' + 1) d) (c ''Assigned Tasks'') tv))
         = mergedRow hs d tv"
proof -
  let ?a = "sparseSet (formatRowData (c ''Name'' + 1) (c ''Category'' + 1) (c ''Role/Position'' + 1)
              (c ''Status'' + 1) (c ''Email'' + 1) (c ''Phone'' + 1) d) (c ''Assigned Tasks'') tv"
  have lt: "c h < int (length hs)" for h
    unfolding c_def by (rule findIndex_less)
  have "length (formatRowData (c ''Name'' + 1) (c ''Category'' + 1) (c ''Role/Position'' + 1)
              (c ''Status'' + 1) (c ''Email'' + 1) (c ''Phone'' + 1) d) \<le> length hs"
    by (rule length_formatRowData) (rule lt)+
  then have len: "length ?a \<le> length hs"
    using lt [of "''Assigned Tasks''"] by (rule length_sparseSet_le)
  show ?thesis
  proof (rule nth_equalityI)
    show "length (rowValues (fillUndefined (length hs) ?a)) = length (mergedRow hs d tv)"
      using rowValues_fill(1) [OF len] by simp
  next
    fix j assume "j < length (rowValues (fillUndefined (length hs) ?a))"
    then have j: "j < length hs" using rowValues_fill(1) [OF len] by simp
    have "rowValues (fillUndefined (length hs) ?a) ! j = orEmpty (sparseGet ?a (int j))"
      using j by (rule rowValues_fill(2) [OF len])
    also have "\<dots> = mergedCell hs d tv j"
      unfolding mergedCell_def c_def by (rule orEmpty_sparseGet_written)
    finally show "rowValues (fillUndefined (length hs) ?a) ! j = mergedRow hs d tv ! j"
      using j by (simp add: mergedRow_def)
  qed
qed

lemma rowValues_written_no_tasks:
  fixes hs :: "cell list"
  defines "c \<equiv> \<lambda>h. findIndex (\<lambda>header. header = h) hs"
  assumes "c ''Assigned Tasks'' = - 1"
  shows "rowValues (fillUndefined (length hs)
           (formatRowData (c ''Name'' + 1) (c ''Category'' + 1) (c ''Role/Position'' + 1)
              (c ''Status'' + 1) (c ''Email'' + 1) (c ''Phone'' + 1) d))
         = mergedRow hs d tv"
  using rowValues_written [of hs d tv] assms by (simp add: sparseSet_neg)

lemma update_step:
  assumes p: "people ss = Some sheet" and req: "requiredPresent sheet"
    and k: "findExistingRow sheet (col ''Email'' sheet + 1) (email d) 1 = int k"
  shows "addOrUpdatePersonInPeopleSheet d ss =
     Logger_log (UpdatedExisting (name d) (email d) (int k + 1))
       (ss\<lparr>people := Some (sheet[k :=
           mergedRow (getHeaders sheet) d (getValue sheet (int k + 1) (col ''Assigned Tasks'' sheet + 1))
             @ drop (length (getHeaders sheet)) (sheet ! k)])\<rparr>)"
proof -
  from k have kr: "1 \<le> k" "k < length sheet"
    by (simp_all add: findExistingRow_some)
  have nz: "col ''Name'' sheet + 1 \<noteq> 0" "col ''Category'' sheet + 1 \<noteq> 0" "col ''Email'' sheet + 1 \<noteq> 0"
    using req by (simp_all add: requiredPresent_def findIndex_zero_iff)
  show ?thesis
  proof (cases "col ''Assigned Tasks'' sheet + 1 = 0")
    case True
    then have T: "col ''Assigned Tasks'' sheet = - 1" by simp
    have row: "rowValues (fillUndefined (length (getHeaders sheet))
           (formatRowData (col ''Name'' sheet + 1) (col ''Category'' sheet + 1)
              (col ''Role/Position'' sheet + 1) (col ''Status'' sheet + 1)
              (col ''Email'' sheet + 1) (col ''Phone'' sheet + 1) d))
         = mergedRow (getHeaders sheet) d tv" for tv
      using T by (rule rowValues_written_no_tasks)
    have len: "length (fillUndefined (length (getHeaders sheet))
           (formatRowData (col ''Name'' sheet + 1) (col ''Category'' sheet + 1)
              (col ''Role/Position'' sheet + 1) (col ''Status'' sheet + 1)
              (col ''Email'' sheet + 1) (col ''Phone'' sheet + 1) d)) = length (getHeaders sheet)"
      using arg_cong [OF row [of undefined], of length] by simp
    show ?thesis
      using p nz k kr T
      by (simp add: addOrUpdatePersonInPeopleSheet_def Let_def setValues_def
          row [of "getValue sheet (int k + 1) 0"] len sparseSet_neg)
  next
    case False
    have len: "length (fillUndefined (length (getHeaders sheet))
           (sparseSet (formatRowData (col ''Name'' sheet + 1) (col ''Category'' sheet + 1)
              (col ''Role/Position'' sheet + 1) (col ''Status'' sheet + 1)
              (col ''Email'' sheet + 1) (col ''Phone'' sheet + 1) d)
              (col ''Assigned Tasks'' sheet) tv)) = length (getHeaders sheet)" for tv
      using arg_cong [OF rowValues_written [of "getHeaders sheet" d tv], of length] by simp
    show ?thesis
      using p nz k kr False
      by (simp add: addOrUpdatePersonInPeopleSheet_def Let_def setValues_def rowValues_written len)
  qed
qed

lemma insert_step:
  assumes p: "people ss = Some sheet" and req: "requiredPresent sheet"
    and k: "findExistingRow sheet (col ''Email'' sheet + 1) (email d) 1 = - 1"
  shows "addOrUpdatePersonInPeopleSheet d ss =
     Logger_log (AddedNew (name d) (email d) (int (length sheet) + 1))
       (ss\<lparr>people := Some (sheet @ [mergedRow (getHeaders sheet) d ''''])\<rparr>)"
proof -
  have nz: "col ''Name'' sheet + 1 \<noteq> 0" "col ''Category'' sheet + 1 \<noteq> 0" "col ''Email'' sheet + 1 \<noteq> 0"
    using req by (simp_all add: requiredPresent_def findIndex_zero_iff)
  show ?thesis
  proof (cases "col ''Assigned Tasks'' sheet + 1 = 0")
    case True
    then have T: "col ''Assigned Tasks'' sheet = - 1" by simp
    have row: "rowValues (fillUndefined (length (getHeaders sheet))
           (formatRowData (col ''Name'' sheet + 1) (col ''Category'' sheet + 1)
              (col ''Role/Position'' sheet + 1) (col ''Status'' sheet + 1)
              (col ''Email'' sheet + 1) (col ''Phone'' sheet + 1) d))
         = mergedRow (getHeaders sheet) d tv" for tv
      using T by (rule rowValues_written_no_tasks)
    show ?thesis
      using p nz k T
      by (simp add: addOrUpdatePersonInPeopleSheet_def Let_def setValues_def getLastRow_def
          row [of "[]"])
  next
    case False
    show ?thesis
      using p nz k False
      by (simp add: addOrUpdatePersonInPeopleSheet_def Let_def setValues_def getLastRow_def
          rowValues_written)
  qed
qed

subsection \<open>The match\<close>

lemma existingRowIndex_some:
  "existingRowIndex sheet d = int k \<longleftrightarrow>
     (1 \<le> k \<and> k < length sheet \<and> emailCell sheet k = email d \<and>
      (\<forall>j. 1 \<le> j \<and> j < k \<longrightarrow> emailCell sheet j \<noteq> email d))"
  by (simp add: existingRowIndex_def emailCell_def findExistingRow_some)

lemma existingRowIndex_none:
  "existingRowIndex sheet d = - 1 \<longleftrightarrow>
     (\<forall>k. 1 \<le> k \<and> k < length sheet \<longrightarrow> emailCell sheet k \<noteq> email d)"
  by (simp add: existingRowIndex_def emailCell_def findExistingRow_none)

lemma existingRowIndex_cases:
  obtains "existingRowIndex sheet d = - 1"
  | k where "existingRowIndex sheet d = int k"
  unfolding existingRowIndex_def
  by (rule findExistingRow_cases [of sheet "col ''Email'' sheet + 1" "email d" 1]) auto

lemma update_people:
  assumes "people ss = Some sheet" "requiredPresent sheet" "existingRowIndex sheet d = int k"
  shows "people (addOrUpdatePersonInPeopleSheet d ss) =
     Some (sheet[k := mergedRow (getHeaders sheet) d
                    (getValue sheet (int k + 1) (col ''Assigned Tasks'' sheet + 1))
                  @ drop (length (getHeaders sheet)) (sheet ! k)])"
  using update_step [OF assms(1,2), of d k] assms(3)
  by (simp add: existingRowIndex_def Logger_log_def)

lemma update_logger:
  assumes "people ss = Some sheet" "requiredPresent sheet" "existingRowIndex sheet d = int k"
  shows "logger (addOrUpdatePersonInPeopleSheet d ss) =
     logger ss @ [UpdatedExisting (name d) (email d) (int k + 1)]"
  using update_step [OF assms(1,2), of d k] assms(3)
  by (simp add: existingRowIndex_def Logger_log_def)

lemma insert_people:
  assumes "people ss = Some sheet" "requiredPresent sheet" "existingRowIndex sheet d = - 1"
  shows "people (addOrUpdatePersonInPeopleSheet d ss) =
     Some (sheet @ [mergedRow (getHeaders sheet) d ''''])"
  using insert_step [OF assms(1,2), of d] assms(3)
  by (simp add: existingRowIndex_def Logger_log_def)

lemma insert_logger:
  assumes "people ss = Some sheet" "requiredPresent sheet" "existingRowIndex sheet d = - 1"
  shows "logger (addOrUpdatePersonInPeopleSheet d ss) =
     logger ss @ [AddedNew (name d) (email d) (int (length sheet) + 1)]"
  using insert_step [OF assms(1,2), of d] assms(3)
  by (simp add: existingRowIndex_def Logger_log_def)

subsection \<open>Cells of the written row\<close>

lemma findIndex_inj:
  assumes "findIndex (\<lambda>header. header = h1) hs = int j"
    and "findIndex (\<lambda>header. header = h2) hs = int j"
  shows "h1 = h2"
  using findIndex_eq_nat [OF assms(1)] findIndex_eq_nat [OF assms(2)] by simp

lemma nth_mergedRow: "j < length hs \<Longrightarrow> mergedRow hs d tv ! j = mergedCell hs d tv j"
  by (simp add: mergedRow_def)

lemma mergedCell_tasks:
  "int j = findIndex (\<lambda>header. header = ''Assigned Tasks'') hs \<Longrightarrow> mergedCell hs d tv j = tv"
  by (simp add: mergedCell_def)

lemma mergedCell_email:
  assumes "int j = findIndex (\<lambda>header. header = ''Email'') hs"
  shows "mergedCell hs d tv j = orEmpty (email d)"
proof -
  have "int j \<noteq> findIndex (\<lambda>header. header = ''Assigned Tasks'') hs"
    using findIndex_inj [of "''Email''" hs j "''Assigned Tasks''"] assms by auto
  moreover have "int j \<noteq> findIndex (\<lambda>header. header = ''Phone'') hs"
    using findIndex_inj [of "''Email''" hs j "''Phone''"] assms by auto
  ultimately show ?thesis using assms by (simp add: mergedCell_def)
qed

lemma mergedRow_no_tasks:
  assumes "findIndex (\<lambda>header. header = ''Assigned Tasks'') hs = - 1"
  shows "mergedRow hs d tv = mergedRow hs d tv'"
  using assms by (simp add: mergedRow_def mergedCell_def)

lemma mergedCell_unknown:
  assumes "j < length hs"
    and "hs ! j \<notin> {''Name'', ''Category'', ''Role/Position'', ''Status'', ''Email'', ''Phone'',
           ''Assigned Tasks''}"
  shows "mergedCell hs d tv j = ''''"
proof -
  have "int j \<noteq> findIndex (\<lambda>header. header = h) hs"
    if "h \<in> {''Name'', ''Category'', ''Role/Position'', ''Status'', ''Email'', ''Phone'',
           ''Assigned Tasks''}" for h
  proof
    assume "int j = findIndex (\<lambda>header. header = h) hs"
    then have "hs ! j = h" using findIndex_eq_nat [of h hs j] by simp
    with that assms(2) show False by simp
  qed
  then show ?thesis by (simp add: mergedCell_def)
qed

subsection \<open>Reading the sheet\<close>

lemma requiredPresent_nonempty: "requiredPresent sheet \<Longrightarrow> sheet \<noteq> []"
  by (auto simp: requiredPresent_def getHeaders_def)

lemma getHeaders_update: "1 \<le> k \<Longrightarrow> getHeaders (sheet[k := r]) = getHeaders sheet"
  by (cases sheet; cases k) (simp_all add: getHeaders_def)

lemma getHeaders_append: "sheet \<noteq> [] \<Longrightarrow> getHeaders (sheet @ rows) = getHeaders sheet"
  by (cases sheet) (simp_all add: getHeaders_def)

lemma getValue_cell:
  "i < length sheet \<Longrightarrow> getValue sheet (int i + 1) (c + 1) = orEmpty (arrayGet (sheet ! i) c)"
  by (simp add: getValue_def arrayGet_def)

lemma arrayGet_nth: "j < length a \<Longrightarrow> arrayGet a (int j) = Some (a ! j)"
  by (simp add: arrayGet_def)

lemma arrayGet_append: "j < length a \<Longrightarrow> arrayGet (a @ b) (int j) = Some (a ! j)"
  by (simp add: arrayGet_def nth_append)

lemma col_email_nat:
  assumes "requiredPresent sheet"
  obtains c where "col ''Email'' sheet = int c" "c < length (getHeaders sheet)"
proof -
  from assms have "''Email'' \<in> set (getHeaders sheet)" by (simp add: requiredPresent_def)
  then show thesis by (rule findIndex_present) (use that in blast)
qed

subsection \<open>Email cells after a write\<close>

lemma emailCell_update_other:
  "1 \<le> k \<Longrightarrow> i \<noteq> k \<Longrightarrow> emailCell (sheet[k := r]) i = emailCell sheet i"
  by (simp add: emailCell_def getHeaders_update)

lemma emailCell_update_same:
  assumes "requiredPresent sheet" "1 \<le> k" "k < length sheet"
  shows "emailCell (sheet[k := mergedRow (getHeaders sheet) d tv @ rest]) k
           = Some (orEmpty (email d))"
proof -
  from assms(1) obtain c where c: "col ''Email'' sheet = int c" "c < length (getHeaders sheet)"
    by (rule col_email_nat)
  have "emailCell (sheet[k := mergedRow (getHeaders sheet) d tv @ rest]) k
          = arrayGet (mergedRow (getHeaders sheet) d tv @ rest) (int c)"
    using assms(2,3) c(1) by (simp add: emailCell_def getHeaders_update)
  also have "\<dots> = Some (mergedRow (getHeaders sheet) d tv ! c)"
    using c(2) by (simp add: arrayGet_append)
  also have "mergedRow (getHeaders sheet) d tv ! c = orEmpty (email d)"
    using c by (simp add: nth_mergedRow mergedCell_email)
  finally show ?thesis .
qed

lemma emailCell_append_old:
  "sheet \<noteq> [] \<Longrightarrow> i < length sheet \<Longrightarrow> emailCell (sheet @ rows) i = emailCell sheet i"
  by (simp add: emailCell_def getHeaders_append nth_append)

lemma emailCell_append_new:
  assumes "requiredPresent sheet"
  shows "emailCell (sheet @ [mergedRow (getHeaders sheet) d tv]) (length sheet)
           = Some (orEmpty (email d))"
proof -
  from assms obtain c where c: "col ''Email'' sheet = int c" "c < length (getHeaders sheet)"
    by (rule col_email_nat)
  have ne: "sheet \<noteq> []" using assms by (rule requiredPresent_nonempty)
  have "emailCell (sheet @ [mergedRow (getHeaders sheet) d tv]) (length sheet)
          = arrayGet (mergedRow (getHeaders sheet) d tv) (int c)"
    using c(1) ne by (simp add: emailCell_def getHeaders_append)
  also have "\<dots> = Some (mergedRow (getHeaders sheet) d tv ! c)"
    using c(2) by (simp add: arrayGet_nth)
  also have "mergedRow (getHeaders sheet) d tv ! c = orEmpty (email d)"
    using c by (simp add: nth_mergedRow mergedCell_email)
  finally show ?thesis .
qed

subsection \<open>A row already merged is written back as it is\<close>

lemma update_fixpoint:
  assumes p: "people ss = Some sheet" and req: "requiredPresent sheet"
    and k: "existingRowIndex sheet d = int k"
    and row: "take (length (getHeaders sheet)) (sheet ! k) = mergedRow (getHeaders sheet) d tv"
  shows "people (addOrUpdatePersonInPeopleSheet d ss) = Some sheet"
proof -
  let ?hs = "getHeaders sheet"
  let ?tv' = "getValue sheet (int k + 1) (col ''Assigned Tasks'' sheet + 1)"
  from k have kl: "k < length sheet" by (simp add: existingRowIndex_some)
  have "length (take (length ?hs) (sheet ! k)) = length ?hs"
    by (simp only: row length_mergedRow)
  then have len: "length ?hs \<le> length (sheet ! k)" by simp
  have same: "mergedRow ?hs d ?tv' = mergedRow ?hs d tv"
  proof (cases "''Assigned Tasks'' \<in> set ?hs")
    case False
    then have "col ''Assigned Tasks'' sheet = - 1" by (rule findIndex_absent)
    then show ?thesis by (rule mergedRow_no_tasks)
  next
    case True
    then obtain t where t: "t < length ?hs" "col ''Assigned Tasks'' sheet = int t"
      by (rule findIndex_present)
    have "?tv' = orEmpty (arrayGet (sheet ! k) (int t))"
      using kl t(2) by (simp add: getValue_cell)
    also have "\<dots> = (sheet ! k) ! t"
      using t(1) len by (simp add: arrayGet_nth)
    also have "\<dots> = take (length ?hs) (sheet ! k) ! t"
      using t(1) by simp
    also have "\<dots> = mergedCell ?hs d tv t"
      using t(1) by (simp only: row nth_mergedRow)
    also have "\<dots> = tv"
      using t(2) by (simp add: mergedCell_tasks)
    finally show ?thesis by simp
  qed
  have "people (addOrUpdatePersonInPeopleSheet d ss) =
      Some (sheet[k := mergedRow ?hs d ?tv' @ drop (length ?hs) (sheet ! k)])"
    using p req k by (rule update_people)
  also have "mergedRow ?hs d ?tv' @ drop (length ?hs) (sheet ! k) = sheet ! k"
    unfolding same row [symmetric] by (rule append_take_drop_id)
  finally show ?thesis by simp
qed

lemma people_idem:
  assumes p: "people ss = Some sheet" and req: "requiredPresent sheet"
    and e: "email d = Some e"
  shows "people (addOrUpdatePersonInPeopleSheet d (addOrUpdatePersonInPeopleSheet d ss)) =
         people (addOrUpdatePersonInPeopleSheet d ss)"
proof (cases sheet d rule: existingRowIndex_cases)
  case 1
  let ?R = "mergedRow (getHeaders sheet) d ''''"
  let ?sheet1 = "sheet @ [?R]"
  have ne: "sheet \<noteq> []" using req by (rule requiredPresent_nonempty)
  have p1: "people (addOrUpdatePersonInPeopleSheet d ss) = Some ?sheet1"
    using p req 1 by (rule insert_people)
  have hs1: "getHeaders ?sheet1 = getHeaders sheet"
    using ne by (rule getHeaders_append)
  have req1: "requiredPresent ?sheet1"
    using req unfolding requiredPresent_def hs1 .
  have none: "\<forall>j. 1 \<le> j \<and> j < length sheet \<longrightarrow> emailCell sheet j \<noteq> email d"
    using 1 by (simp add: existingRowIndex_none)
  have k1: "existingRowIndex ?sheet1 d = int (length sheet)"
    unfolding existingRowIndex_some
  proof (intro conjI allI impI)
    show "1 \<le> length sheet" using ne by (cases sheet) simp_all
    show "length sheet < length ?sheet1" by simp
    show "emailCell ?sheet1 (length sheet) = email d"
      using req e by (simp add: emailCell_append_new)
    fix j assume j: "1 \<le> j \<and> j < length sheet"
    then have "emailCell ?sheet1 j = emailCell sheet j"
      using ne by (simp add: emailCell_append_old)
    with none j show "emailCell ?sheet1 j \<noteq> email d" by simp
  qed
  have row1: "take (length (getHeaders ?sheet1)) (?sheet1 ! length sheet)
      = mergedRow (getHeaders ?sheet1) d ''''"
    by (simp add: hs1)
  show ?thesis
    unfolding p1 using p1 req1 k1 row1 by (rule update_fixpoint)
next
  case (2 k)
  let ?R = "mergedRow (getHeaders sheet) d
              (getValue sheet (int k + 1) (col ''Assigned Tasks'' sheet + 1))"
  let ?sheet1 = "sheet[k := ?R @ drop (length (getHeaders sheet)) (sheet ! k)]"
  from 2 have kr: "1 \<le> k" "k < length sheet"
    and first: "\<forall>j. 1 \<le> j \<and> j < k \<longrightarrow> emailCell sheet j \<noteq> email d"
    by (simp_all add: existingRowIndex_some)
  have p1: "people (addOrUpdatePersonInPeopleSheet d ss) = Some ?sheet1"
    using p req 2 by (rule update_people)
  have hs1: "getHeaders ?sheet1 = getHeaders sheet"
    using kr(1) by (rule getHeaders_update)
  have req1: "requiredPresent ?sheet1"
    using req unfolding requiredPresent_def hs1 .
  have k1: "existingRowIndex ?sheet1 d = int k"
    unfolding existingRowIndex_some
  proof (intro conjI allI impI)
    show "1 \<le> k" by (rule kr(1))
    show "k < length ?sheet1" using kr(2) by simp
    show "emailCell ?sheet1 k = email d"
      using req kr e by (simp add: emailCell_update_same)
    fix j assume j: "1 \<le> j \<and> j < k"
    then have "emailCell ?sheet1 j = emailCell sheet j"
      using kr(1) by (simp add: emailCell_update_other)
    with first j show "emailCell ?sheet1 j \<noteq> email d" by simp
  qed
  have row1: "take (length (getHeaders ?sheet1)) (?sheet1 ! k) = mergedRow (getHeaders ?sheet1) d
      (getValue sheet (int k + 1) (col ''Assigned Tasks'' sheet + 1))"
    using kr(2) by (simp add: hs1)
  show ?thesis
    unfolding p1 using p1 req1 k1 row1 by (rule update_fixpoint)
qed

subsection \<open>The Email column as a whole, before and after\<close>

lemma emailCells_update:
  assumes req: "requiredPresent sheet" and k: "existingRowIndex sheet d = int k"
    and e: "email d = Some e"
  shows "emailCell (sheet[k := mergedRow (getHeaders sheet) d tv @ rest]) = emailCell sheet"
proof (rule ext)
  fix i
  from k have kr: "1 \<le> k" "k < length sheet" "emailCell sheet k = email d"
    by (simp_all add: existingRowIndex_some)
  show "emailCell (sheet[k := mergedRow (getHeaders sheet) d tv @ rest]) i = emailCell sheet i"
  proof (cases "i = k")
    case True
    then show ?thesis using req kr e by (simp add: emailCell_update_same)
  next
    case False
    then show ?thesis using kr(1) by (simp add: emailCell_update_other)
  qed
qed

lemma upt_data_rows_append:
  "sheet \<noteq> [] \<Longrightarrow> [1..<length (sheet @ [r])] = [1..<length sheet] @ [length sheet]"
  by (cases sheet) simp_all

lemma recordsWithEmail_update:
  assumes req: "requiredPresent sheet" and k: "existingRowIndex sheet d = int k"
    and e: "email d = Some e"
  shows "recordsWithEmail (sheet[k := mergedRow (getHeaders sheet) d tv @ rest]) x
           = recordsWithEmail sheet x"
  unfolding recordsWithEmail_def emailCells_update [OF req k e] by simp

lemma recordsWithEmail_insert:
  assumes req: "requiredPresent sheet"
  shows "recordsWithEmail (sheet @ [mergedRow (getHeaders sheet) d tv]) (Some (orEmpty (email d)))
           = recordsWithEmail sheet (Some (orEmpty (email d))) @ [length sheet]"
proof -
  let ?x = "Some (orEmpty (email d))"
  let ?s1 = "sheet @ [mergedRow (getHeaders sheet) d tv]"
  have ne: "sheet \<noteq> []" using req by (rule requiredPresent_nonempty)
  have old: "filter (\<lambda>i. emailCell ?s1 i = ?x) [1..<length sheet]
      = filter (\<lambda>i. emailCell sheet i = ?x) [1..<length sheet]"
  proof (rule filter_cong [OF refl])
    fix i assume "i \<in> set [1..<length sheet]"
    then have "i < length sheet" by simp
    then show "(emailCell ?s1 i = ?x) = (emailCell sheet i = ?x)"
      using ne by (simp add: emailCell_append_old)
  qed
  have new: "emailCell ?s1 (length sheet) = ?x"
    using req by (rule emailCell_append_new)
  have "recordsWithEmail ?s1 ?x
      = filter (\<lambda>i. emailCell ?s1 i = ?x) [1..<length sheet]
        @ filter (\<lambda>i. emailCell ?s1 i = ?x) [length sheet]"
    unfolding recordsWithEmail_def upt_data_rows_append [OF ne] by (rule filter_append)
  also have "filter (\<lambda>i. emailCell ?s1 i = ?x) [length sheet] = [length sheet]"
    using new by simp
  finally show ?thesis
    unfolding old recordsWithEmail_def .
qed

lemma uniqueEmails_update:
  assumes req: "requiredPresent sheet" and k: "existingRowIndex sheet d = int k"
    and e: "email d = Some e"
  shows "uniqueEmails (sheet[k := mergedRow (getHeaders sheet) d tv @ rest]) = uniqueEmails sheet"
  unfolding uniqueEmails_def emailCells_update [OF req k e] by simp

lemma uniqueEmails_insert:
  assumes req: "requiredPresent sheet" and k: "existingRowIndex sheet d = - 1"
    and e: "email d = Some e" and u: "uniqueEmails sheet"
  shows "uniqueEmails (sheet @ [mergedRow (getHeaders sheet) d tv])"
proof -
  let ?s1 = "sheet @ [mergedRow (getHeaders sheet) d tv]"
  have ne: "sheet \<noteq> []" using req by (rule requiredPresent_nonempty)
  have old: "map (emailCell ?s1) [1..<length sheet] = map (emailCell sheet) [1..<length sheet]"
  proof (rule map_cong [OF refl])
    fix i assume "i \<in> set [1..<length sheet]"
    then have "i < length sheet" by simp
    then show "emailCell ?s1 i = emailCell sheet i"
      using ne by (simp add: emailCell_append_old)
  qed
  have new: "emailCell ?s1 (length sheet) = Some e"
    using emailCell_append_new [OF req, of d tv] e by simp
  have fresh: "Some e \<notin> set (map (emailCell sheet) [1..<length sheet])"
  proof
    assume "Some e \<in> set (map (emailCell sheet) [1..<length sheet])"
    then obtain i where "1 \<le> i" "i < length sheet" "emailCell sheet i = Some e"
      by auto
    with k e show False by (simp add: existingRowIndex_none)
  qed
  have "map (emailCell ?s1) [1..<length ?s1]
      = map (emailCell sheet) [1..<length sheet] @ [Some e]"
    unfolding upt_data_rows_append [OF ne] map_append old using new by simp
  then show ?thesis
    unfolding uniqueEmails_def using u fresh by (simp add: uniqueEmails_def)
qed

lemma exampleRoster_required: "requiredPresent exampleRoster"
  by (simp add: requiredPresent_def exampleRoster_def exampleHeaders_def getHeaders_def)

lemma exampleRoster_match: "existingRowIndex exampleRoster exampleContact = int 1"
  using existingRowIndex_some [of exampleRoster exampleContact 1]
  by (simp add: emailCell_def exampleRoster_def exampleHeaders_def
      exampleContact_def getHeaders_def findIndex_def arrayGet_def)

lemma exampleRoster_result:
  "people (addOrUpdatePersonInPeopleSheet exampleContact \<lparr>people = Some exampleRoster, logger = []\<rparr>)
     = Some [exampleHeaders,
         [''Ana Lee'', ''Volunteer'', ''Lead'', ''Accepted'', ''ana@x.com'', '''', ''Signage'', '''']]"
  by code_simp

lemma duplicateRoster_required: "requiredPresent duplicateRoster"
  by (simp add: requiredPresent_def duplicateRoster_def getHeaders_def)

lemma duplicateRoster_match: "existingRowIndex duplicateRoster annContact = int 1"
  using existingRowIndex_some [of duplicateRoster annContact 1]
  by (simp add: emailCell_def duplicateRoster_def annContact_def getHeaders_def findIndex_def
      arrayGet_def)

lemma findIndex_neq:
  "hs ! j \<noteq> h \<Longrightarrow> (int j = findIndex (\<lambda>header. header = h) hs) = False"
  using findIndex_eq_nat [of h hs j] by auto

lemma mergedCell_by_column:
  "mergedCell hs d tv j =
     (if int j = findIndex (\<lambda>header. header = ''Name'') hs then orEmpty (name d)
      else if int j = findIndex (\<lambda>header. header = ''Category'') hs then orEmpty (category d)
      else if int j = findIndex (\<lambda>header. header = ''Role/Position'') hs then orEmpty (role d)
      else if int j = findIndex (\<lambda>header. header = ''Status'') hs then orEmpty (status d)
      else if int j = findIndex (\<lambda>header. header = ''Email'') hs then orEmpty (email d)
      else if int j = findIndex (\<lambda>header. header = ''Phone'') hs then orEmpty (phone d)
      else if int j = findIndex (\<lambda>header. header = ''Assigned Tasks'') hs then tv
      else '''')"
proof -
  consider (n) "hs ! j = ''Name''" | (c) "hs ! j = ''Category''"
    | (r) "hs ! j = ''Role/Position''" | (s) "hs ! j = ''Status''" | (e) "hs ! j = ''Email''"
    | (p) "hs ! j = ''Phone''" | (t) "hs ! j = ''Assigned Tasks''"
    | (u) "hs ! j \<notin> {''Name'', ''Category'', ''Role/Position'', ''Status'', ''Email'', ''Phone'',
           ''Assigned Tasks''}"
    by blast
  then show ?thesis
  proof cases
    case n then show ?thesis by (simp add: mergedCell_def findIndex_neq)
  next
    case c then show ?thesis by (simp add: mergedCell_def findIndex_neq)
  next
    case r then show ?thesis by (simp add: mergedCell_def findIndex_neq)
  next
    case s then show ?thesis by (simp add: mergedCell_def findIndex_neq)
  next
    case e then show ?thesis by (simp add: mergedCell_def findIndex_neq)
  next
    case p then show ?thesis by (simp add: mergedCell_def findIndex_neq)
  next
    case t then show ?thesis by (simp add: mergedCell_def findIndex_neq)
  next
    case u then show ?thesis by (simp add: mergedCell_def findIndex_neq)
  qed
qed

subsection \<open>The match after a write\<close>

lemma existingRowIndex_cong:
  assumes "length sheet' = length sheet" and "emailCell sheet' = emailCell sheet"
  shows "existingRowIndex sheet' d = existingRowIndex sheet d"
proof (cases sheet d rule: existingRowIndex_cases)
  case 1
  then have "existingRowIndex sheet' d = - 1"
    unfolding existingRowIndex_none assms .
  with 1 show ?thesis by simp
next
  case (2 k)
  then have "existingRowIndex sheet' d = int k"
    unfolding existingRowIndex_some assms .
  with 2 show ?thesis by simp
qed

lemma existingRowIndex_append_keep:
  assumes ne: "sheet \<noteq> []" and k: "existingRowIndex sheet d = int k"
  shows "existingRowIndex (sheet @ rows) d = int k"
proof -
  from k have kr: "1 \<le> k" "k < length sheet" "emailCell sheet k = email d"
    and first: "\<forall>j. 1 \<le> j \<and> j < k \<longrightarrow> emailCell sheet j \<noteq> email d"
    by (simp_all add: existingRowIndex_some)
  show ?thesis
    unfolding existingRowIndex_some
  proof (intro conjI allI impI)
    show "1 \<le> k" by (rule kr(1))
    show "k < length (sheet @ rows)" using kr(2) by simp
    show "emailCell (sheet @ rows) k = email d"
      using ne kr by (simp add: emailCell_append_old)
    fix j assume j: "1 \<le> j \<and> j < k"
    then have "emailCell (sheet @ rows) j = emailCell sheet j"
      using ne kr(2) by (simp add: emailCell_append_old)
    with first j show "emailCell (sheet @ rows) j \<noteq> email d" by simp
  qed
qed

lemma existingRowIndex_append_new:
  assumes req: "requiredPresent sheet" and none: "existingRowIndex sheet d = - 1"
    and e: "email d = Some e"
  shows "existingRowIndex (sheet @ [mergedRow (getHeaders sheet) d tv]) d = int (length sheet)"
proof -
  have ne: "sheet \<noteq> []" using req by (rule requiredPresent_nonempty)
  from none have no: "\<forall>j. 1 \<le> j \<and> j < length sheet \<longrightarrow> emailCell sheet j \<noteq> email d"
    by (simp add: existingRowIndex_none)
  show ?thesis
    unfolding existingRowIndex_some
  proof (intro conjI allI impI)
    show "1 \<le> length sheet" using ne by (cases sheet) simp_all
    show "length sheet < length (sheet @ [mergedRow (getHeaders sheet) d tv])" by simp
    show "emailCell (sheet @ [mergedRow (getHeaders sheet) d tv]) (length sheet) = email d"
      using req e by (simp add: emailCell_append_new)
    fix j assume j: "1 \<le> j \<and> j < length sheet"
    then have "emailCell (sheet @ [mergedRow (getHeaders sheet) d tv]) j = emailCell sheet j"
      using ne by (simp add: emailCell_append_old)
    with no j show "emailCell (sheet @ [mergedRow (getHeaders sheet) d tv]) j \<noteq> email d"
      by simp
  qed
qed

text \<open>
  After a call with a contact whose email is a string, the roster has a record that
  the scan finds for that contact, and every record the scan found before (for any
  contact) is still found at the same row.
\<close>

lemma recorded_after:
  assumes p: "people ss = Some sheet" and req: "requiredPresent sheet"
    and e: "email d = Some e"
  shows "\<exists>sheet1 k. people (addOrUpdatePersonInPeopleSheet d ss) = Some sheet1 \<and>
     requiredPresent sheet1 \<and> existingRowIndex sheet1 d = int k \<and>
     (\<forall>d' k'. existingRowIndex sheet d' = int k' \<longrightarrow> existingRowIndex sheet1 d' = int k')"
proof (cases sheet d rule: existingRowIndex_cases)
  case 1
  let ?sheet1 = "sheet @ [mergedRow (getHeaders sheet) d '''']"
  have ne: "sheet \<noteq> []" using req by (rule requiredPresent_nonempty)
  have p1: "people (addOrUpdatePersonInPeopleSheet d ss) = Some ?sheet1"
    using p req 1 by (rule insert_people)
  have hs1: "getHeaders ?sheet1 = getHeaders sheet"
    using ne by (rule getHeaders_append)
  have req1: "requiredPresent ?sheet1"
    using req unfolding requiredPresent_def hs1 .
  have k1: "existingRowIndex ?sheet1 d = int (length sheet)"
    using req 1 e by (rule existingRowIndex_append_new)
  have keep: "\<forall>d' k'. existingRowIndex sheet d' = int k' \<longrightarrow>
      existingRowIndex ?sheet1 d' = int k'"
    using ne by (simp add: existingRowIndex_append_keep)
  from p1 req1 k1 keep show ?thesis by blast
next
  case (2 k)
  let ?sheet1 = "sheet[k := mergedRow (getHeaders sheet) d
              (getValue sheet (int k + 1) (col ''Assigned Tasks'' sheet + 1))
            @ drop (length (getHeaders sheet)) (sheet ! k)]"
  from 2 have kr: "1 \<le> k" by (simp add: existingRowIndex_some)
  have p1: "people (addOrUpdatePersonInPeopleSheet d ss) = Some ?sheet1"
    using p req 2 by (rule update_people)
  have hs1: "getHeaders ?sheet1 = getHeaders sheet"
    using kr by (rule getHeaders_update)
  have req1: "requiredPresent ?sheet1"
    using req unfolding requiredPresent_def hs1 .
  have cells: "emailCell ?sheet1 = emailCell sheet"
    using req 2 e by (rule emailCells_update)
  have same: "existingRowIndex ?sheet1 d' = existingRowIndex sheet d'" for d'
    by (rule existingRowIndex_cong) (simp_all add: cells)
  from p1 req1 same [of d] 2 same show ?thesis by auto
qed

subsection \<open>The host write in the two branches\<close>

lemma setValues_update:
  "k < length sheet \<Longrightarrow>
   setValues sheet (int k + 1) row = sheet[k := row @ drop (length row) (sheet ! k)]"
  by (simp add: setValues_def)

lemma setValues_append: "setValues sheet (int (length sheet) + 1) row = sheet @ [row]"
  by (simp add: setValues_def)

subsection \<open>Records carrying an email\<close>

lemma recordsWithEmail_matched:
  "existingRowIndex sheet d = int k \<Longrightarrow> k \<in> set (recordsWithEmail sheet (email d))"
  by (simp add: existingRowIndex_some recordsWithEmail_def)

lemma recordsWithEmail_unmatched:
  "existingRowIndex sheet d = - 1 \<Longrightarrow> recordsWithEmail sheet (email d) = []"
  by (auto simp: existingRowIndex_none recordsWithEmail_def filter_empty_conv)

subsection \<open>Values for columns the sheet does not have\<close>

lemma mergedRow_role_absent:
  "''Role/Position'' \<notin> set hs \<Longrightarrow> mergedRow hs (d\<lparr>role := v\<rparr>) tv = mergedRow hs d tv"
  by (simp add: mergedRow_def mergedCell_def findIndex_absent)

lemma mergedRow_status_absent:
  "''Status'' \<notin> set hs \<Longrightarrow> mergedRow hs (d\<lparr>status := v\<rparr>) tv = mergedRow hs d tv"
  by (simp add: mergedRow_def mergedCell_def findIndex_absent)

lemma mergedRow_phone_absent:
  "''Phone'' \<notin> set hs \<Longrightarrow> mergedRow hs (d\<lparr>phone := v\<rparr>) tv = mergedRow hs d tv"
  by (simp add: mergedRow_def mergedCell_def findIndex_absent)

lemma people_depends_on_row:
  assumes p: "people ss = Some sheet" and req: "requiredPresent sheet"
    and em: "email d' = email d"
    and row: "\<And>tv. mergedRow (getHeaders sheet) d' tv = mergedRow (getHeaders sheet) d tv"
  shows "people (addOrUpdatePersonInPeopleSheet d' ss) =
         people (addOrUpdatePersonInPeopleSheet d ss)"
proof -
  have same: "existingRowIndex sheet d' = existingRowIndex sheet d"
    by (simp add: existingRowIndex_def em)
  show ?thesis
  proof (cases sheet d rule: existingRowIndex_cases)
    case 1
    with same have m: "existingRowIndex sheet d' = - 1" by simp
    show ?thesis
      unfolding insert_people [OF p req 1] insert_people [OF p req m] row by (rule refl)
  next
    case (2 k)
    with same have m: "existingRowIndex sheet d' = int k" by simp
    show ?thesis
      unfolding update_people [OF p req 2] update_people [OF p req m] row by (rule refl)
  qed
qed

lemma headerOnlyRoster_required: "requiredPresent headerOnlyRoster"
  by (simp add: requiredPresent_def headerOnlyRoster_def getHeaders_def)

lemma blankKeyedRoster_required: "requiredPresent blankKeyedRoster"
  by (simp add: requiredPresent_def blankKeyedRoster_def getHeaders_def)

subsection \<open>The header range\<close>

lemma fold_max_ge: "x \<in> set xs \<Longrightarrow> x \<le> fold max xs (a::nat)"
proof -
  assume "x \<in> set xs"
  then have "x \<le> Max (set (a # xs))" by simp
  then show ?thesis by (simp only: Max.set_eq_fold)
qed

lemma lastContent_pos: "c \<in> set row \<Longrightarrow> c \<noteq> '''' \<Longrightarrow> 1 \<le> lastContent row"
proof -
  assume "c \<in> set row" "c \<noteq> ''''"
  then have "dropWhile (\<lambda>c. c = '''') (rev row) \<noteq> []"
    by (auto simp: dropWhile_eq_Nil_conv)
  then show ?thesis
    by (cases "dropWhile (\<lambda>c. c = '''') (rev row)") (simp_all add: lastContent_def)
qed

lemma getLastColumn_content:
  assumes "row \<in> set sheet" "c \<in> set row" "c \<noteq> ''''"
  shows "1 \<le> getLastColumn sheet"
proof -
  have "1 \<le> lastContent row" using assms(2,3) by (rule lastContent_pos)
  moreover have "lastContent row \<le> fold max (map lastContent sheet) 0"
    using assms(1) by (intro fold_max_ge) simp
  ultimately show ?thesis by (simp add: getLastColumn_def)
qed

lemma requiredPresent_content: "requiredPresent sheet \<Longrightarrow> 1 \<le> getLastColumn sheet"
proof -
  assume req: "requiredPresent sheet"
  then obtain h rows where s: "sheet = h # rows"
    by (cases sheet) (simp_all add: requiredPresent_def getHeaders_def)
  with req have n: "''Name'' \<in> set h" by (simp add: requiredPresent_def getHeaders_def)
  have h: "h \<in> set sheet" using s by simp
  have ne: "''Name'' \<noteq> ''''" by simp
  from h n ne show ?thesis by (rule getLastColumn_content)
qed

text \<open>
  With the required columns in the header row the header range exists, so the call
  returns, in the state \<open>addOrUpdatePersonInPeopleSheet\<close> gives.
\<close>

lemma call_returns:
  assumes "people ss = Some sheet" "requiredPresent sheet"
  shows "addOrUpdatePersonInPeopleSheet_call d ss = Returned (addOrUpdatePersonInPeopleSheet d ss)"
  using assms(1) requiredPresent_content [OF assms(2)]
  by (simp add: addOrUpdatePersonInPeopleSheet_call_def)

lemma call_throws:
  assumes "people ss = Some sheet" "getLastColumn sheet = 0"
  shows "addOrUpdatePersonInPeopleSheet_call d ss = Threw RangeWithoutColumns ss"
  using assms by (simp add: addOrUpdatePersonInPeopleSheet_call_def)

subsection \<open>The row written, as the host call\<close>

lemma update_write:
  assumes p: "people ss = Some sheet" and req: "requiredPresent sheet"
    and k: "existingRowIndex sheet d = int k"
  shows "people (addOrUpdatePersonInPeopleSheet d ss) =
     Some (setValues sheet (int k + 1) (mergedRow (getHeaders sheet) d
        (getValue sheet (int k + 1) (col ''Assigned Tasks'' sheet + 1))))"
proof -
  from k have kl: "k < length sheet" by (simp add: existingRowIndex_some)
  show ?thesis
    unfolding update_people [OF p req k] setValues_update [OF kl] length_mergedRow
    by (rule refl)
qed

lemma insert_write:
  assumes p: "people ss = Some sheet" and req: "requiredPresent sheet"
    and k: "existingRowIndex sheet d = - 1"
  shows "people (addOrUpdatePersonInPeopleSheet d ss) =
     Some (setValues sheet (getLastRow sheet + 1) (mergedRow (getHeaders sheet) d ''''))"
  unfolding insert_people [OF p req k] getLastRow_def setValues_append by (rule refl)

lemma phoneRoster_required: "requiredPresent phoneRoster"
  by (simp add: requiredPresent_def phoneRoster_def getHeaders_def)

section \<open>The claims\<close>

subsection \<open>C1\<close>

text \<open>
  C1, in the form that holds.  When a record with the incoming email is found, every
  column of the matched row whose header is none of Name, Category, Role/Position, Status, Email, Phone
  and Assigned Tasks holds the empty string after the update: the whole row is rewritten,
  and only the Assigned Tasks value is carried over.
\<close>

theorem C1_unknown_columns_blanked:
  assumes p: "people ss = Some sheet" and req: "requiredPresent sheet"
    and k: "existingRowIndex sheet d = int k"
    and j: "j < length (getHeaders sheet)"
    and unk: "getHeaders sheet ! j \<notin> {''Name'', ''Category'', ''Role/Position'', ''Status'',
                ''Email'', ''Phone'', ''Assigned Tasks''}"
  shows "\<exists>sheet'. people (addOrUpdatePersonInPeopleSheet d ss) = Some sheet' \<and>
     getValue sheet' (int k + 1) (int j + 1) = ''''"
proof -
  let ?hs = "getHeaders sheet"
  let ?tv = "getValue sheet (int k + 1) (col ''Assigned Tasks'' sheet + 1)"
  let ?sheet' = "sheet[k := mergedRow ?hs d ?tv @ drop (length ?hs) (sheet ! k)]"
  from k have kl: "k < length sheet" by (simp add: existingRowIndex_some)
  have after: "people (addOrUpdatePersonInPeopleSheet d ss) = Some ?sheet'"
    using p req k by (rule update_people)
  have "getValue ?sheet' (int k + 1) (int j + 1)
      = orEmpty (arrayGet (mergedRow ?hs d ?tv @ drop (length ?hs) (sheet ! k)) (int j))"
    using kl by (simp add: getValue_cell)
  also have "\<dots> = mergedCell ?hs d ?tv j"
    using j by (simp add: arrayGet_append nth_mergedRow)
  also have "\<dots> = ''''"
    using j unk by (rule mergedCell_unknown)
  finally show ?thesis using after by simp
qed

theorem C1_witness:
  "\<exists>sheet'. people (addOrUpdatePersonInPeopleSheet exampleContact
        \<lparr>people = Some exampleRoster, logger = []\<rparr>) = Some sheet' \<and>
     getValue sheet' 2 8 = ''''"
proof -
  have j: "7 < length (getHeaders exampleRoster)"
    by (simp add: exampleRoster_def exampleHeaders_def getHeaders_def)
  have unk: "getHeaders exampleRoster ! 7 \<notin> {''Name'', ''Category'', ''Role/Position'',
      ''Status'', ''Email'', ''Phone'', ''Assigned Tasks''}"
    by (simp add: exampleRoster_def exampleHeaders_def getHeaders_def)
  from C1_unknown_columns_blanked
    [of "\<lparr>people = Some exampleRoster, logger = []\<rparr>" exampleRoster exampleContact 1 7,
      OF _ exampleRoster_required exampleRoster_match j unk]
  show ?thesis by simp
qed

text \<open>
  The claim as first stated fails: a roster with a Notes column, whose only record has
  the incoming email and the note Vegetarian, has an empty Notes cell after the update.
\<close>

theorem C1_counterexample:
  "exampleHeaders ! 7 = ''Notes'' \<and>
   emailCell exampleRoster 1 = email exampleContact \<and>
   getValue exampleRoster 2 8 = ''Vegetarian'' \<and>
   people (addOrUpdatePersonInPeopleSheet exampleContact
        \<lparr>people = Some exampleRoster, logger = []\<rparr>)
     = Some [exampleHeaders,
         [''Ana Lee'', ''Volunteer'', ''Lead'', ''Accepted'', ''ana@x.com'', '''', ''Signage'', '''']] \<and>
   getValue [exampleHeaders,
         [''Ana Lee'', ''Volunteer'', ''Lead'', ''Accepted'', ''ana@x.com'', '''', ''Signage'', '''']]
       2 8 \<noteq> getValue exampleRoster 2 8"
proof (intro conjI)
  show "exampleHeaders ! 7 = ''Notes''"
    by (simp add: exampleHeaders_def)
  show "emailCell exampleRoster 1 = email exampleContact"
    by (simp add: emailCell_def exampleRoster_def exampleHeaders_def exampleContact_def
        getHeaders_def findIndex_def arrayGet_def)
  show "getValue exampleRoster 2 8 = ''Vegetarian''"
    by (simp add: exampleRoster_def getValue_def arrayGet_def)
  show "people (addOrUpdatePersonInPeopleSheet exampleContact
        \<lparr>people = Some exampleRoster, logger = []\<rparr>)
     = Some [exampleHeaders,
         [''Ana Lee'', ''Volunteer'', ''Lead'', ''Accepted'', ''ana@x.com'', '''', ''Signage'', '''']]"
    by (rule exampleRoster_result)
  show "getValue [exampleHeaders,
         [''Ana Lee'', ''Volunteer'', ''Lead'', ''Accepted'', ''ana@x.com'', '''', ''Signage'', '''']]
       2 8 \<noteq> getValue exampleRoster 2 8"
    by (simp add: exampleRoster_def getValue_def arrayGet_def)
qed

subsection \<open>C2\<close>

text \<open>
  C2.  When a record of the roster has the incoming email, the value in its
  Assigned Tasks column after the call is the value it had before the call; the number
  of rows does not change.  The value written back is the one read from the sheet as it
  was before the write.
\<close>

theorem C2_assigned_tasks_preserved:
  assumes p: "people ss = Some sheet" and req: "requiredPresent sheet"
    and tasks: "''Assigned Tasks'' \<in> set (getHeaders sheet)"
    and i: "1 \<le> i" "i < length sheet" and m: "emailCell sheet i = email d"
  shows "\<exists>sheet'. people (addOrUpdatePersonInPeopleSheet d ss) = Some sheet' \<and>
     length sheet' = length sheet \<and>
     getValue sheet' (int i + 1) (col ''Assigned Tasks'' sheet + 1) =
       getValue sheet (int i + 1) (col ''Assigned Tasks'' sheet + 1)"
proof -
  let ?hs = "getHeaders sheet"
  from tasks obtain t where t: "t < length ?hs" "col ''Assigned Tasks'' sheet = int t"
    by (rule findIndex_present)
  have "existingRowIndex sheet d \<noteq> - 1"
    using i m by (auto simp: existingRowIndex_none)
  then obtain k where k: "existingRowIndex sheet d = int k"
    by (cases sheet d rule: existingRowIndex_cases) simp_all
  then have kl: "k < length sheet" by (simp add: existingRowIndex_some)
  let ?tv = "getValue sheet (int k + 1) (col ''Assigned Tasks'' sheet + 1)"
  let ?sheet' = "sheet[k := mergedRow ?hs d ?tv @ drop (length ?hs) (sheet ! k)]"
  have after: "people (addOrUpdatePersonInPeopleSheet d ss) = Some ?sheet'"
    using p req k by (rule update_people)
  have "getValue ?sheet' (int i + 1) (int t + 1) = getValue sheet (int i + 1) (int t + 1)"
  proof (cases "i = k")
    case True
    have "getValue ?sheet' (int k + 1) (int t + 1)
        = orEmpty (arrayGet (mergedRow ?hs d ?tv @ drop (length ?hs) (sheet ! k)) (int t))"
      using kl by (simp add: getValue_cell)
    also have "\<dots> = mergedCell ?hs d ?tv t"
      using t(1) by (simp add: arrayGet_append nth_mergedRow)
    also have "\<dots> = ?tv"
      using t(2) by (simp add: mergedCell_tasks)
    finally show ?thesis using True t(2) by simp
  next
    case False
    then show ?thesis using i(2) by (simp add: getValue_cell)
  qed
  with after t(2) show ?thesis by simp
qed

theorem C2_witness:
  "\<exists>sheet'. people (addOrUpdatePersonInPeopleSheet exampleContact
        \<lparr>people = Some exampleRoster, logger = []\<rparr>) = Some sheet' \<and>
     length sheet' = 2 \<and> getValue sheet' 2 7 = ''Signage''"
proof -
  have m: "emailCell exampleRoster 1 = email exampleContact"
    by (simp add: emailCell_def exampleRoster_def exampleHeaders_def exampleContact_def
        getHeaders_def findIndex_def arrayGet_def)
  have tasks: "''Assigned Tasks'' \<in> set (getHeaders exampleRoster)"
    by (simp add: exampleRoster_def exampleHeaders_def getHeaders_def)
  have c: "col ''Assigned Tasks'' exampleRoster = 6"
    by (simp add: exampleRoster_def exampleHeaders_def getHeaders_def findIndex_def)
  have v: "getValue exampleRoster 2 7 = ''Signage''"
    by (simp add: exampleRoster_def getValue_def arrayGet_def)
  have l: "length exampleRoster = 2"
    by (simp add: exampleRoster_def)
  from C2_assigned_tasks_preserved
    [of "\<lparr>people = Some exampleRoster, logger = []\<rparr>" exampleRoster 1 exampleContact,
      OF _ exampleRoster_required tasks _ _ m]
  show ?thesis by (simp add: c v l)
qed

subsection \<open>C3\<close>




subsection \<open>C4\<close>

text \<open>
  C4.  The match is the first data row, in row order, whose Email cell is exactly equal
  (as a string, so case-sensitively) to the incoming email: that row is the one
  updated.  When no data row has an equal Email cell a row is appended.  Two contacts
  whose emails are different strings, such as two that differ only in letter case, have
  two different records in the roster after both have been applied.
\<close>

theorem C4_first_exact_match:
  assumes p: "people ss = Some sheet" and req: "requiredPresent sheet"
  shows "(\<forall>k. 1 \<le> k \<and> k < length sheet \<and> emailCell sheet k = email d \<and>
            (\<forall>j. 1 \<le> j \<and> j < k \<longrightarrow> emailCell sheet j \<noteq> email d) \<longrightarrow>
          (\<exists>row. people (addOrUpdatePersonInPeopleSheet d ss) = Some (sheet[k := row])) \<and>
          logger (addOrUpdatePersonInPeopleSheet d ss) =
            logger ss @ [UpdatedExisting (name d) (email d) (int k + 1)]) \<and>
     ((\<forall>i. 1 \<le> i \<and> i < length sheet \<longrightarrow> emailCell sheet i \<noteq> email d) \<longrightarrow>
          (\<exists>row. people (addOrUpdatePersonInPeopleSheet d ss) = Some (sheet @ [row])) \<and>
          logger (addOrUpdatePersonInPeopleSheet d ss) =
            logger ss @ [AddedNew (name d) (email d) (int (length sheet) + 1)]) \<and>
     (\<forall>d2 e1 e2. email d = Some e1 \<and> email d2 = Some e2 \<and> e1 \<noteq> e2 \<longrightarrow>
          (\<exists>sheet2 k1 k2.
             people (addOrUpdatePersonInPeopleSheet d2 (addOrUpdatePersonInPeopleSheet d ss))
               = Some sheet2 \<and>
             k1 \<noteq> k2 \<and>
             1 \<le> k1 \<and> k1 < length sheet2 \<and> emailCell sheet2 k1 = Some e1 \<and>
             1 \<le> k2 \<and> k2 < length sheet2 \<and> emailCell sheet2 k2 = Some e2))"
proof (intro conjI allI impI)
  fix k
  assume "1 \<le> k \<and> k < length sheet \<and> emailCell sheet k = email d \<and>
            (\<forall>j. 1 \<le> j \<and> j < k \<longrightarrow> emailCell sheet j \<noteq> email d)"
  then have k: "existingRowIndex sheet d = int k"
    unfolding existingRowIndex_some .
  from update_people [OF p req k]
  show "\<exists>row. people (addOrUpdatePersonInPeopleSheet d ss) = Some (sheet[k := row])"
    by blast
  from p req k
  show "logger (addOrUpdatePersonInPeopleSheet d ss) =
            logger ss @ [UpdatedExisting (name d) (email d) (int k + 1)]"
    by (rule update_logger)
next
  assume "\<forall>i. 1 \<le> i \<and> i < length sheet \<longrightarrow> emailCell sheet i \<noteq> email d"
  then have k: "existingRowIndex sheet d = - 1"
    unfolding existingRowIndex_none .
  from insert_people [OF p req k]
  show "\<exists>row. people (addOrUpdatePersonInPeopleSheet d ss) = Some (sheet @ [row])"
    by blast
  from p req k
  show "logger (addOrUpdatePersonInPeopleSheet d ss) =
            logger ss @ [AddedNew (name d) (email d) (int (length sheet) + 1)]"
    by (rule insert_logger)
next
  fix d2 :: contact and e1 e2 :: string
  assume a: "email d = Some e1 \<and> email d2 = Some e2 \<and> e1 \<noteq> e2"
  then have e1: "email d = Some e1" and e2: "email d2 = Some e2" and ne: "e1 \<noteq> e2"
    by simp_all
  from recorded_after [OF p req e1] obtain sheet1 k1
    where p1: "people (addOrUpdatePersonInPeopleSheet d ss) = Some sheet1"
      and req1: "requiredPresent sheet1"
      and k1: "existingRowIndex sheet1 d = int k1"
    by blast
  from p1 req1 e2 have "\<exists>sheet2 k2.
      people (addOrUpdatePersonInPeopleSheet d2 (addOrUpdatePersonInPeopleSheet d ss))
        = Some sheet2 \<and>
      requiredPresent sheet2 \<and> existingRowIndex sheet2 d2 = int k2 \<and>
      (\<forall>d' k'. existingRowIndex sheet1 d' = int k' \<longrightarrow>
         existingRowIndex sheet2 d' = int k')"
    by (rule recorded_after)
  then obtain sheet2 k2
    where p2: "people (addOrUpdatePersonInPeopleSheet d2 (addOrUpdatePersonInPeopleSheet d ss))
                 = Some sheet2"
      and k2: "existingRowIndex sheet2 d2 = int k2"
      and keep: "\<forall>d' k'. existingRowIndex sheet1 d' = int k' \<longrightarrow>
                   existingRowIndex sheet2 d' = int k'"
    by blast
  from keep k1 have k1': "existingRowIndex sheet2 d = int k1" by blast
  from k1' e1 have r1: "1 \<le> k1" "k1 < length sheet2" "emailCell sheet2 k1 = Some e1"
    by (simp_all add: existingRowIndex_some)
  from k2 e2 have r2: "1 \<le> k2" "k2 < length sheet2" "emailCell sheet2 k2 = Some e2"
    by (simp_all add: existingRowIndex_some)
  from r1(3) r2(3) ne have "k1 \<noteq> k2" by auto
  with p2 r1 r2
  show "\<exists>sheet2 k1 k2.
             people (addOrUpdatePersonInPeopleSheet d2 (addOrUpdatePersonInPeopleSheet d ss))
               = Some sheet2 \<and>
             k1 \<noteq> k2 \<and>
             1 \<le> k1 \<and> k1 < length sheet2 \<and> emailCell sheet2 k1 = Some e1 \<and>
             1 \<le> k2 \<and> k2 < length sheet2 \<and> emailCell sheet2 k2 = Some e2"
    by blast
qed

theorem C4_witness:
  "(\<exists>row. people (addOrUpdatePersonInPeopleSheet annContact
        \<lparr>people = Some duplicateRoster, logger = []\<rparr>) = Some (duplicateRoster[1 := row])) \<and>
   (\<exists>row. people (addOrUpdatePersonInPeopleSheet lowerContact
        \<lparr>people = Some headerOnlyRoster, logger = []\<rparr>) = Some (headerOnlyRoster @ [row])) \<and>
   (\<exists>sheet2 k1 k2.
      people (addOrUpdatePersonInPeopleSheet upperContact
        (addOrUpdatePersonInPeopleSheet lowerContact
           \<lparr>people = Some headerOnlyRoster, logger = []\<rparr>)) = Some sheet2 \<and>
      k1 \<noteq> k2 \<and> emailCell sheet2 k1 = Some ''a@x.com'' \<and>
      emailCell sheet2 k2 = Some ''A@X.com'')"
proof -
  have first: "1 \<le> (1::nat) \<and> 1 < length duplicateRoster \<and>
      emailCell duplicateRoster 1 = email annContact \<and>
      (\<forall>j. 1 \<le> j \<and> j < 1 \<longrightarrow> emailCell duplicateRoster j \<noteq> email annContact)"
    using duplicateRoster_match unfolding existingRowIndex_some .
  have none: "\<forall>i. 1 \<le> i \<and> i < length headerOnlyRoster \<longrightarrow>
      emailCell headerOnlyRoster i \<noteq> email lowerContact"
    by (simp add: headerOnlyRoster_def)
  have emails: "email lowerContact = Some ''a@x.com'' \<and> email upperContact = Some ''A@X.com'' \<and>
      ''a@x.com'' \<noteq> ''A@X.com''"
    by (simp add: lowerContact_def upperContact_def)
  note dup = C4_first_exact_match
    [of "\<lparr>people = Some duplicateRoster, logger = []\<rparr>" duplicateRoster annContact,
      OF _ duplicateRoster_required]
  note fresh = C4_first_exact_match
    [of "\<lparr>people = Some headerOnlyRoster, logger = []\<rparr>" headerOnlyRoster lowerContact,
      OF _ headerOnlyRoster_required]
  have a: "\<exists>row. people (addOrUpdatePersonInPeopleSheet annContact
        \<lparr>people = Some duplicateRoster, logger = []\<rparr>) = Some (duplicateRoster[1 := row])"
    using dup first by simp
  have b: "\<exists>row. people (addOrUpdatePersonInPeopleSheet lowerContact
        \<lparr>people = Some headerOnlyRoster, logger = []\<rparr>) = Some (headerOnlyRoster @ [row])"
    using fresh none by simp
  have c: "\<exists>sheet2 k1 k2.
      people (addOrUpdatePersonInPeopleSheet upperContact
        (addOrUpdatePersonInPeopleSheet lowerContact
           \<lparr>people = Some headerOnlyRoster, logger = []\<rparr>)) = Some sheet2 \<and>
      k1 \<noteq> k2 \<and> emailCell sheet2 k1 = Some ''a@x.com'' \<and>
      emailCell sheet2 k2 = Some ''A@X.com''"
  proof -
    from fresh have "\<forall>d2 e1 e2.
        email lowerContact = Some e1 \<and> email d2 = Some e2 \<and> e1 \<noteq> e2 \<longrightarrow>
        (\<exists>sheet2 k1 k2.
           people (addOrUpdatePersonInPeopleSheet d2
             (addOrUpdatePersonInPeopleSheet lowerContact
                \<lparr>people = Some headerOnlyRoster, logger = []\<rparr>)) = Some sheet2 \<and>
           k1 \<noteq> k2 \<and>
           1 \<le> k1 \<and> k1 < length sheet2 \<and> emailCell sheet2 k1 = Some e1 \<and>
           1 \<le> k2 \<and> k2 < length sheet2 \<and> emailCell sheet2 k2 = Some e2)"
      by simp
    from this [rule_format, of "''a@x.com''" upperContact "''A@X.com''", OF emails]
    show ?thesis by blast
  qed
  from a b c show ?thesis by (intro conjI)
qed

subsection \<open>C5\<close>




subsection \<open>C6\<close>

text \<open>
  C6.  When no data row has the incoming email, exactly one row is appended after the
  last row.  It has one cell for each header; the cells of the columns found for Name,
  Category, Role/Position, Status, Email and Phone hold the contact's values (the empty
  string for a value that is absent), the Assigned Tasks cell is empty, and every other
  cell is empty.
\<close>

theorem C6_insert_appends_one_row:
  assumes p: "people ss = Some sheet" and req: "requiredPresent sheet"
    and none: "\<forall>i. 1 \<le> i \<and> i < length sheet \<longrightarrow> emailCell sheet i \<noteq> email d"
  shows "\<exists>row. people (addOrUpdatePersonInPeopleSheet d ss) = Some (sheet @ [row]) \<and>
     length row = length (getHeaders sheet) \<and>
     (\<forall>j<length (getHeaders sheet). row ! j =
        (if int j = col ''Name'' sheet then orEmpty (name d)
         else if int j = col ''Category'' sheet then orEmpty (category d)
         else if int j = col ''Role/Position'' sheet then orEmpty (role d)
         else if int j = col ''Status'' sheet then orEmpty (status d)
         else if int j = col ''Email'' sheet then orEmpty (email d)
         else if int j = col ''Phone'' sheet then orEmpty (phone d)
         else if int j = col ''Assigned Tasks'' sheet then ''''
         else ''''))"
proof -
  let ?row = "mergedRow (getHeaders sheet) d ''''"
  from none have "existingRowIndex sheet d = - 1"
    by (simp only: existingRowIndex_none)
  with p req have "people (addOrUpdatePersonInPeopleSheet d ss) = Some (sheet @ [?row])"
    by (rule insert_people)
  moreover have "length ?row = length (getHeaders sheet)" by simp
  moreover have "\<forall>j<length (getHeaders sheet). ?row ! j =
        (if int j = col ''Name'' sheet then orEmpty (name d)
         else if int j = col ''Category'' sheet then orEmpty (category d)
         else if int j = col ''Role/Position'' sheet then orEmpty (role d)
         else if int j = col ''Status'' sheet then orEmpty (status d)
         else if int j = col ''Email'' sheet then orEmpty (email d)
         else if int j = col ''Phone'' sheet then orEmpty (phone d)
         else if int j = col ''Assigned Tasks'' sheet then ''''
         else '''')"
  proof (intro allI impI)
    fix j assume jl: "j < length (getHeaders sheet)"
    show "?row ! j =
        (if int j = col ''Name'' sheet then orEmpty (name d)
         else if int j = col ''Category'' sheet then orEmpty (category d)
         else if int j = col ''Role/Position'' sheet then orEmpty (role d)
         else if int j = col ''Status'' sheet then orEmpty (status d)
         else if int j = col ''Email'' sheet then orEmpty (email d)
         else if int j = col ''Phone'' sheet then orEmpty (phone d)
         else if int j = col ''Assigned Tasks'' sheet then ''''
         else '''')"
      unfolding nth_mergedRow [OF jl] by (rule mergedCell_by_column)
  qed
  ultimately show ?thesis by blast
qed

theorem C6_witness:
  "\<exists>row. people (addOrUpdatePersonInPeopleSheet exampleContact
        \<lparr>people = Some [exampleHeaders], logger = []\<rparr>) = Some ([exampleHeaders] @ [row]) \<and>
     length row = 8 \<and> row ! 0 = ''Ana Lee'' \<and> row ! 4 = ''ana@x.com'' \<and> row ! 5 = '''' \<and>
     row ! 6 = '''' \<and> row ! 7 = ''''"
proof -
  have req: "requiredPresent [exampleHeaders]"
    by (simp add: requiredPresent_def exampleHeaders_def getHeaders_def)
  have none: "\<forall>i. 1 \<le> i \<and> i < length [exampleHeaders] \<longrightarrow>
      emailCell [exampleHeaders] i \<noteq> email exampleContact"
    by simp
  have hs: "getHeaders [exampleHeaders] = exampleHeaders"
    by (simp add: getHeaders_def)
  have cols: "findIndex (\<lambda>header. header = ''Name'') exampleHeaders = 0"
    "findIndex (\<lambda>header. header = ''Category'') exampleHeaders = 1"
    "findIndex (\<lambda>header. header = ''Role/Position'') exampleHeaders = 2"
    "findIndex (\<lambda>header. header = ''Status'') exampleHeaders = 3"
    "findIndex (\<lambda>header. header = ''Email'') exampleHeaders = 4"
    "findIndex (\<lambda>header. header = ''Phone'') exampleHeaders = 5"
    "findIndex (\<lambda>header. header = ''Assigned Tasks'') exampleHeaders = 6"
    by (simp_all add: findIndex_def exampleHeaders_def)
  have len: "length exampleHeaders = 8"
    by (simp add: exampleHeaders_def)
  from C6_insert_appends_one_row
    [of "\<lparr>people = Some [exampleHeaders], logger = []\<rparr>" "[exampleHeaders]" exampleContact,
      OF _ req none]
  obtain row where r: "people (addOrUpdatePersonInPeopleSheet exampleContact
        \<lparr>people = Some [exampleHeaders], logger = []\<rparr>) = Some ([exampleHeaders] @ [row])"
    "length row = 8"
    "\<forall>j<8. row ! j =
        (if int j = 0 then orEmpty (name exampleContact)
         else if int j = 1 then orEmpty (category exampleContact)
         else if int j = 2 then orEmpty (role exampleContact)
         else if int j = 3 then orEmpty (status exampleContact)
         else if int j = 4 then orEmpty (email exampleContact)
         else if int j = 5 then orEmpty (phone exampleContact)
         else if int j = 6 then ''''
         else '''')"
    unfolding hs cols len by auto
  have "row ! 0 = ''Ana Lee''" "row ! 4 = ''ana@x.com''" "row ! 5 = ''''" "row ! 6 = ''''"
    "row ! 7 = ''''"
    using r(3) by (simp_all add: exampleContact_def)
  with r(1,2) show ?thesis by blast
qed

subsection \<open>C7\<close>

text \<open>
  C7, in the form that holds.  For a contact with a non-empty email the call is
  idempotent on the
  roster: applying the same contact twice leaves the roster exactly as one application
  leaves it.  The number of records carrying that email is then one when the roster held
  none or one before, and is otherwise what it was before: rows that already
  duplicated the email stay in place.
\<close>

theorem C7_idempotent_on_roster:
  assumes p: "people ss = Some sheet" and req: "requiredPresent sheet"
    and e: "email d = Some e" and ne: "e \<noteq> ''''"
  shows "\<exists>sheet'. people (addOrUpdatePersonInPeopleSheet d ss) = Some sheet' \<and>
     people (addOrUpdatePersonInPeopleSheet d (addOrUpdatePersonInPeopleSheet d ss))
       = Some sheet' \<and>
     length (recordsWithEmail sheet' (Some e)) =
       max 1 (length (recordsWithEmail sheet (Some e)))"
proof -
  have idem: "people (addOrUpdatePersonInPeopleSheet d (addOrUpdatePersonInPeopleSheet d ss)) =
       people (addOrUpdatePersonInPeopleSheet d ss)"
    using p req e by (rule people_idem)
  show ?thesis
  proof (cases sheet d rule: existingRowIndex_cases)
    case 1
    let ?sheet' = "sheet @ [mergedRow (getHeaders sheet) d '''']"
    have p1: "people (addOrUpdatePersonInPeopleSheet d ss) = Some ?sheet'"
      using p req 1 by (rule insert_people)
    have "recordsWithEmail sheet (Some e) = []"
      using recordsWithEmail_unmatched [OF 1] e by simp
    moreover have "recordsWithEmail ?sheet' (Some e) = recordsWithEmail sheet (Some e) @ [length sheet]"
      using recordsWithEmail_insert [OF req, of d "''''"] e by simp
    ultimately have "length (recordsWithEmail ?sheet' (Some e)) =
        max 1 (length (recordsWithEmail sheet (Some e)))"
      by simp
    with p1 idem show ?thesis by simp
  next
    case (2 k)
    let ?sheet' = "sheet[k := mergedRow (getHeaders sheet) d
              (getValue sheet (int k + 1) (col ''Assigned Tasks'' sheet + 1))
            @ drop (length (getHeaders sheet)) (sheet ! k)]"
    have p1: "people (addOrUpdatePersonInPeopleSheet d ss) = Some ?sheet'"
      using p req 2 by (rule update_people)
    have same: "recordsWithEmail ?sheet' (Some e) = recordsWithEmail sheet (Some e)"
      using req 2 e by (rule recordsWithEmail_update)
    have "k \<in> set (recordsWithEmail sheet (Some e))"
      using recordsWithEmail_matched [OF 2] e by simp
    then have "1 \<le> length (recordsWithEmail sheet (Some e))"
      by (cases "recordsWithEmail sheet (Some e)") simp_all
    then have "length (recordsWithEmail ?sheet' (Some e)) =
        max 1 (length (recordsWithEmail sheet (Some e)))"
      unfolding same by simp
    with p1 idem show ?thesis by simp
  qed
qed

theorem C7_witness:
  "\<exists>sheet'. people (addOrUpdatePersonInPeopleSheet lowerContact
        \<lparr>people = Some headerOnlyRoster, logger = []\<rparr>) = Some sheet' \<and>
     people (addOrUpdatePersonInPeopleSheet lowerContact
       (addOrUpdatePersonInPeopleSheet lowerContact
          \<lparr>people = Some headerOnlyRoster, logger = []\<rparr>)) = Some sheet' \<and>
     length (recordsWithEmail sheet' (Some ''a@x.com'')) = 1"
proof -
  have e: "email lowerContact = Some ''a@x.com''"
    by (simp add: lowerContact_def)
  have ne: "''a@x.com'' \<noteq> ''''" by simp
  have z: "recordsWithEmail headerOnlyRoster (Some ''a@x.com'') = []"
    by (simp add: recordsWithEmail_def headerOnlyRoster_def)
  from C7_idempotent_on_roster
    [of "\<lparr>people = Some headerOnlyRoster, logger = []\<rparr>" headerOnlyRoster lowerContact
        "''a@x.com''", OF _ headerOnlyRoster_required e ne]
  show ?thesis by (simp add: z)
qed

text \<open>
  The claim as first stated fails on a roster that already holds two records with the
  incoming email: after two applications there are still two records with that email,
  not exactly one.
\<close>

theorem C7_counterexample:
  "people (addOrUpdatePersonInPeopleSheet annContact
     (addOrUpdatePersonInPeopleSheet annContact
        \<lparr>people = Some duplicateRoster, logger = []\<rparr>))
     = Some [[''Name'', ''Category'', ''Email''],
             [''Ann B'', ''Staff'', ''a@x.com''],
             [''Al'', ''Staff'', ''a@x.com'']] \<and>
   recordsWithEmail [[''Name'', ''Category'', ''Email''],
             [''Ann B'', ''Staff'', ''a@x.com''],
             [''Al'', ''Staff'', ''a@x.com'']] (Some ''a@x.com'') = [1, 2]"
proof (intro conjI)
  show "people (addOrUpdatePersonInPeopleSheet annContact
     (addOrUpdatePersonInPeopleSheet annContact
        \<lparr>people = Some duplicateRoster, logger = []\<rparr>))
     = Some [[''Name'', ''Category'', ''Email''],
             [''Ann B'', ''Staff'', ''a@x.com''],
             [''Al'', ''Staff'', ''a@x.com'']]"
    by code_simp
  show "recordsWithEmail [[''Name'', ''Category'', ''Email''],
             [''Ann B'', ''Staff'', ''a@x.com''],
             [''Al'', ''Staff'', ''a@x.com'']] (Some ''a@x.com'') = [1, 2]"
    by code_simp
qed

subsection \<open>C8\<close>

text \<open>
  C8, in the form that holds.  The call preserves the invariant: when no two data rows
  of the roster
  have the same Email cell before the call, and the incoming email is a string (it is not
  absent), no two data rows have the same Email cell after the call.
\<close>

theorem C8_unique_emails_preserved:
  assumes p: "people ss = Some sheet" and req: "requiredPresent sheet"
    and u: "uniqueEmails sheet" and e: "email d = Some e"
  shows "\<exists>sheet'. people (addOrUpdatePersonInPeopleSheet d ss) = Some sheet' \<and>
     uniqueEmails sheet'"
proof (cases sheet d rule: existingRowIndex_cases)
  case 1
  have "people (addOrUpdatePersonInPeopleSheet d ss) =
      Some (sheet @ [mergedRow (getHeaders sheet) d ''''])"
    using p req 1 by (rule insert_people)
  moreover have "uniqueEmails (sheet @ [mergedRow (getHeaders sheet) d ''''])"
    using req 1 e u by (rule uniqueEmails_insert)
  ultimately show ?thesis by simp
next
  case (2 k)
  let ?sheet' = "sheet[k := mergedRow (getHeaders sheet) d
              (getValue sheet (int k + 1) (col ''Assigned Tasks'' sheet + 1))
            @ drop (length (getHeaders sheet)) (sheet ! k)]"
  have "people (addOrUpdatePersonInPeopleSheet d ss) = Some ?sheet'"
    using p req 2 by (rule update_people)
  moreover have "uniqueEmails ?sheet'"
    using uniqueEmails_update [OF req 2 e] u by simp
  ultimately show ?thesis by simp
qed

theorem C8_witness:
  "uniqueEmails blankKeyedRoster \<and>
   (\<exists>sheet'. people (addOrUpdatePersonInPeopleSheet lowerContact
        \<lparr>people = Some blankKeyedRoster, logger = []\<rparr>) = Some sheet' \<and>
      uniqueEmails sheet')"
proof -
  have u: "uniqueEmails blankKeyedRoster"
    by (simp add: uniqueEmails_def blankKeyedRoster_def)
  have e: "email lowerContact = Some ''a@x.com''"
    by (simp add: lowerContact_def)
  from C8_unique_emails_preserved
    [of "\<lparr>people = Some blankKeyedRoster, logger = []\<rparr>" blankKeyedRoster lowerContact
        "''a@x.com''", OF _ blankKeyedRoster_required u e]
  have "\<exists>sheet'. people (addOrUpdatePersonInPeopleSheet lowerContact
        \<lparr>people = Some blankKeyedRoster, logger = []\<rparr>) = Some sheet' \<and>
      uniqueEmails sheet'"
    by simp
  with u show ?thesis by (intro conjI)
qed

text \<open>
  The claim as first stated fails in two ways.  A roster that already holds two records
  with the incoming email still holds both after the call.  And a contact whose email is
  absent never matches, so on a roster with one blank-keyed record the call appends a
  second record with an empty Email cell.
\<close>

theorem C8_counterexample:
  "people (addOrUpdatePersonInPeopleSheet annContact
        \<lparr>people = Some duplicateRoster, logger = []\<rparr>)
     = Some [[''Name'', ''Category'', ''Email''],
             [''Ann B'', ''Staff'', ''a@x.com''],
             [''Al'', ''Staff'', ''a@x.com'']] \<and>
   \<not> uniqueEmails [[''Name'', ''Category'', ''Email''],
             [''Ann B'', ''Staff'', ''a@x.com''],
             [''Al'', ''Staff'', ''a@x.com'']] \<and>
   uniqueEmails blankKeyedRoster \<and>
   people (addOrUpdatePersonInPeopleSheet noEmailContact
        \<lparr>people = Some blankKeyedRoster, logger = []\<rparr>)
     = Some [[''Name'', ''Category'', ''Email''],
             [''Zed'', ''Staff'', ''''],
             [''Cy'', ''Volunteer'', '''']] \<and>
   \<not> uniqueEmails [[''Name'', ''Category'', ''Email''],
             [''Zed'', ''Staff'', ''''],
             [''Cy'', ''Volunteer'', '''']]"
proof (intro conjI)
  show "people (addOrUpdatePersonInPeopleSheet annContact
        \<lparr>people = Some duplicateRoster, logger = []\<rparr>)
     = Some [[''Name'', ''Category'', ''Email''],
             [''Ann B'', ''Staff'', ''a@x.com''],
             [''Al'', ''Staff'', ''a@x.com'']]"
    by code_simp
  show "\<not> uniqueEmails [[''Name'', ''Category'', ''Email''],
             [''Ann B'', ''Staff'', ''a@x.com''],
             [''Al'', ''Staff'', ''a@x.com'']]"
    by code_simp
  show "uniqueEmails blankKeyedRoster"
    by code_simp
  show "people (addOrUpdatePersonInPeopleSheet noEmailContact
        \<lparr>people = Some blankKeyedRoster, logger = []\<rparr>)
     = Some [[''Name'', ''Category'', ''Email''],
             [''Zed'', ''Staff'', ''''],
             [''Cy'', ''Volunteer'', '''']]"
    by code_simp
  show "\<not> uniqueEmails [[''Name'', ''Category'', ''Email''],
             [''Zed'', ''Staff'', ''''],
             [''Cy'', ''Volunteer'', '''']]"
    by code_simp
qed

subsection \<open>C9\<close>

text \<open>
  C9.  When the scan stops at row \<open>k\<close>, that row is the first data row carrying the
  incoming email, and the call changes that row only: the sheet keeps its number of
  rows and every other row, later rows with the same email included, is as it was.
\<close>

theorem C9_only_first_match_written:
  assumes p: "people ss = Some sheet" and req: "requiredPresent sheet"
    and k: "existingRowIndex sheet d = int k"
  shows "1 \<le> k \<and> k < length sheet \<and> emailCell sheet k = email d \<and>
     (\<forall>j. 1 \<le> j \<and> j < k \<longrightarrow> emailCell sheet j \<noteq> email d) \<and>
     (\<exists>sheet'. people (addOrUpdatePersonInPeopleSheet d ss) = Some sheet' \<and>
        length sheet' = length sheet \<and> (\<forall>i. i \<noteq> k \<longrightarrow> sheet' ! i = sheet ! i))"
proof -
  from k have first: "1 \<le> k \<and> k < length sheet \<and> emailCell sheet k = email d \<and>
     (\<forall>j. 1 \<le> j \<and> j < k \<longrightarrow> emailCell sheet j \<noteq> email d)"
    unfolding existingRowIndex_some .
  let ?row = "mergedRow (getHeaders sheet) d
                (getValue sheet (int k + 1) (col ''Assigned Tasks'' sheet + 1))
              @ drop (length (getHeaders sheet)) (sheet ! k)"
  have "people (addOrUpdatePersonInPeopleSheet d ss) = Some (sheet[k := ?row])"
    using p req k by (rule update_people)
  moreover have "length (sheet[k := ?row]) = length sheet" by simp
  moreover have "\<forall>i. i \<noteq> k \<longrightarrow> sheet[k := ?row] ! i = sheet ! i" by simp
  ultimately have "\<exists>sheet'. people (addOrUpdatePersonInPeopleSheet d ss) = Some sheet' \<and>
        length sheet' = length sheet \<and> (\<forall>i. i \<noteq> k \<longrightarrow> sheet' ! i = sheet ! i)"
    by blast
  with first show ?thesis by blast
qed

theorem C9_witness:
  "emailCell duplicateRoster 1 = email annContact \<and>
   emailCell duplicateRoster 2 = email annContact \<and>
   (\<exists>sheet'. people (addOrUpdatePersonInPeopleSheet annContact
        \<lparr>people = Some duplicateRoster, logger = []\<rparr>) = Some sheet' \<and>
      length sheet' = 3 \<and> sheet' ! 0 = [''Name'', ''Category'', ''Email''] \<and>
      sheet' ! 2 = [''Al'', ''Staff'', ''a@x.com''])"
proof -
  have e1: "emailCell duplicateRoster 1 = email annContact"
    by (simp add: emailCell_def duplicateRoster_def annContact_def getHeaders_def findIndex_def
        arrayGet_def)
  have e2: "emailCell duplicateRoster 2 = email annContact"
    by (simp add: emailCell_def duplicateRoster_def annContact_def getHeaders_def findIndex_def
        arrayGet_def)
  from C9_only_first_match_written
    [of "\<lparr>people = Some duplicateRoster, logger = []\<rparr>" duplicateRoster annContact 1,
      OF _ duplicateRoster_required duplicateRoster_match]
  obtain sheet' where s: "people (addOrUpdatePersonInPeopleSheet annContact
        \<lparr>people = Some duplicateRoster, logger = []\<rparr>) = Some sheet'"
      "length sheet' = length duplicateRoster"
      "\<forall>i. i \<noteq> 1 \<longrightarrow> sheet' ! i = duplicateRoster ! i"
    by auto
  from s(3) have "sheet' ! 0 = duplicateRoster ! 0" "sheet' ! 2 = duplicateRoster ! 2"
    by simp_all
  with s(1,2) e1 e2 show ?thesis
    by (simp add: duplicateRoster_def)
qed

subsection \<open>C10\<close>

text \<open>
  C10.  With the required columns present the call never aborts, whether or not the
  sheet has the columns Role/Position, Status, Phone and Assigned Tasks: it ends in one
  \<^verbatim>\<open>setValues\<close> and the log entry of an update or of an insert.  The row written to
  is the first data row whose Email cell equals the incoming email, or the row after the
  last one when there is no such row.  The row written has one cell for each header:
  the contact's values in the columns found for Name, Category, Role/Position, Status,
  Email and Phone, in the Assigned Tasks column the value the matched row had (the empty
  string on an insert), and the empty string in every other column.  So only columns of
  the header receive values, and the value the contact carries for a column the sheet
  does not have has no effect on the roster.
\<close>

theorem C10_optional_columns_may_be_absent:
  assumes p: "people ss = Some sheet" and req: "requiredPresent sheet"
  shows "(\<exists>r. 2 \<le> r \<and> r \<le> getLastRow sheet + 1 \<and>
        people (addOrUpdatePersonInPeopleSheet d ss) =
          Some (setValues sheet r (mergedRow (getHeaders sheet) d
            (if r \<le> getLastRow sheet
             then getValue sheet r (col ''Assigned Tasks'' sheet + 1) else ''''))) \<and>
        logger (addOrUpdatePersonInPeopleSheet d ss) =
          logger ss @ [if r \<le> getLastRow sheet then UpdatedExisting (name d) (email d) r
                       else AddedNew (name d) (email d) r]) \<and>
     (\<forall>k. 1 \<le> k \<and> k < length sheet \<and> emailCell sheet k = email d \<and>
            (\<forall>j. 1 \<le> j \<and> j < k \<longrightarrow> emailCell sheet j \<noteq> email d) \<longrightarrow>
        people (addOrUpdatePersonInPeopleSheet d ss) =
          Some (setValues sheet (int k + 1) (mergedRow (getHeaders sheet) d
            (getValue sheet (int k + 1) (col ''Assigned Tasks'' sheet + 1)))) \<and>
        logger (addOrUpdatePersonInPeopleSheet d ss) =
          logger ss @ [UpdatedExisting (name d) (email d) (int k + 1)]) \<and>
     ((\<forall>i. 1 \<le> i \<and> i < length sheet \<longrightarrow> emailCell sheet i \<noteq> email d) \<longrightarrow>
        people (addOrUpdatePersonInPeopleSheet d ss) =
          Some (setValues sheet (getLastRow sheet + 1) (mergedRow (getHeaders sheet) d '''')) \<and>
        logger (addOrUpdatePersonInPeopleSheet d ss) =
          logger ss @ [AddedNew (name d) (email d) (getLastRow sheet + 1)]) \<and>
     (\<forall>tv. length (mergedRow (getHeaders sheet) d tv) = length (getHeaders sheet) \<and>
        (\<forall>j<length (getHeaders sheet). mergedRow (getHeaders sheet) d tv ! j =
          (if int j = col ''Name'' sheet then orEmpty (name d)
           else if int j = col ''Category'' sheet then orEmpty (category d)
           else if int j = col ''Role/Position'' sheet then orEmpty (role d)
           else if int j = col ''Status'' sheet then orEmpty (status d)
           else if int j = col ''Email'' sheet then orEmpty (email d)
           else if int j = col ''Phone'' sheet then orEmpty (phone d)
           else if int j = col ''Assigned Tasks'' sheet then tv
           else ''''))) \<and>
     (''Role/Position'' \<notin> set (getHeaders sheet) \<longrightarrow>
        (\<forall>v. people (addOrUpdatePersonInPeopleSheet (d\<lparr>role := v\<rparr>) ss) =
             people (addOrUpdatePersonInPeopleSheet d ss))) \<and>
     (''Status'' \<notin> set (getHeaders sheet) \<longrightarrow>
        (\<forall>v. people (addOrUpdatePersonInPeopleSheet (d\<lparr>status := v\<rparr>) ss) =
             people (addOrUpdatePersonInPeopleSheet d ss))) \<and>
     (''Phone'' \<notin> set (getHeaders sheet) \<longrightarrow>
        (\<forall>v. people (addOrUpdatePersonInPeopleSheet (d\<lparr>phone := v\<rparr>) ss) =
             people (addOrUpdatePersonInPeopleSheet d ss)))"
proof -
  let ?after = "addOrUpdatePersonInPeopleSheet d ss"
  let ?hs = "getHeaders sheet"
  let ?tasks = "\<lambda>r. getValue sheet r (col ''Assigned Tasks'' sheet + 1)"
  have upd: "people ?after = Some (setValues sheet (int k + 1) (mergedRow ?hs d (?tasks (int k + 1))))
      \<and> logger ?after = logger ss @ [UpdatedExisting (name d) (email d) (int k + 1)]"
    if "existingRowIndex sheet d = int k" for k
    using update_write [OF p req that] update_logger [OF p req that] by (rule conjI)
  have ins: "people ?after = Some (setValues sheet (getLastRow sheet + 1) (mergedRow ?hs d ''''))
      \<and> logger ?after = logger ss @ [AddedNew (name d) (email d) (getLastRow sheet + 1)]"
    if "existingRowIndex sheet d = - 1"
    using insert_write [OF p req that] insert_logger [OF p req that]
    unfolding getLastRow_def by (rule conjI)
  have always: "\<exists>r. 2 \<le> r \<and> r \<le> getLastRow sheet + 1 \<and>
        people ?after = Some (setValues sheet r (mergedRow ?hs d
            (if r \<le> getLastRow sheet then ?tasks r else ''''))) \<and>
        logger ?after =
          logger ss @ [if r \<le> getLastRow sheet then UpdatedExisting (name d) (email d) r
                       else AddedNew (name d) (email d) r]"
  proof (cases sheet d rule: existingRowIndex_cases)
    case 1
    have "sheet \<noteq> []" using req by (rule requiredPresent_nonempty)
    then have "2 \<le> getLastRow sheet + 1"
      by (cases sheet) (simp_all add: getLastRow_def)
    moreover have "\<not> getLastRow sheet + 1 \<le> getLastRow sheet" by simp
    ultimately show ?thesis using ins [OF 1] by (intro exI [of _ "getLastRow sheet + 1"]) simp
  next
    case (2 k)
    then have "1 \<le> k" "k < length sheet" by (simp_all add: existingRowIndex_some)
    then have "2 \<le> int k + 1" "int k + 1 \<le> getLastRow sheet"
      by (simp_all add: getLastRow_def)
    then show ?thesis using upd [OF 2] by (intro exI [of _ "int k + 1"]) simp
  qed
  have first: "\<forall>k. 1 \<le> k \<and> k < length sheet \<and> emailCell sheet k = email d \<and>
            (\<forall>j. 1 \<le> j \<and> j < k \<longrightarrow> emailCell sheet j \<noteq> email d) \<longrightarrow>
        people ?after = Some (setValues sheet (int k + 1) (mergedRow ?hs d (?tasks (int k + 1)))) \<and>
        logger ?after = logger ss @ [UpdatedExisting (name d) (email d) (int k + 1)]"
  proof (intro allI impI)
    fix k
    assume "1 \<le> k \<and> k < length sheet \<and> emailCell sheet k = email d \<and>
            (\<forall>j. 1 \<le> j \<and> j < k \<longrightarrow> emailCell sheet j \<noteq> email d)"
    then have "existingRowIndex sheet d = int k"
      unfolding existingRowIndex_some .
    then show "people ?after =
          Some (setValues sheet (int k + 1) (mergedRow ?hs d (?tasks (int k + 1)))) \<and>
        logger ?after = logger ss @ [UpdatedExisting (name d) (email d) (int k + 1)]"
      by (rule upd)
  qed
  have none: "(\<forall>i. 1 \<le> i \<and> i < length sheet \<longrightarrow> emailCell sheet i \<noteq> email d) \<longrightarrow>
        people ?after = Some (setValues sheet (getLastRow sheet + 1) (mergedRow ?hs d '''')) \<and>
        logger ?after = logger ss @ [AddedNew (name d) (email d) (getLastRow sheet + 1)]"
  proof
    assume "\<forall>i. 1 \<le> i \<and> i < length sheet \<longrightarrow> emailCell sheet i \<noteq> email d"
    then have "existingRowIndex sheet d = - 1"
      unfolding existingRowIndex_none .
    then show "people ?after =
          Some (setValues sheet (getLastRow sheet + 1) (mergedRow ?hs d '''')) \<and>
        logger ?after = logger ss @ [AddedNew (name d) (email d) (getLastRow sheet + 1)]"
      by (rule ins)
  qed
  have cells: "\<forall>tv. length (mergedRow ?hs d tv) = length ?hs \<and>
        (\<forall>j<length ?hs. mergedRow ?hs d tv ! j =
          (if int j = col ''Name'' sheet then orEmpty (name d)
           else if int j = col ''Category'' sheet then orEmpty (category d)
           else if int j = col ''Role/Position'' sheet then orEmpty (role d)
           else if int j = col ''Status'' sheet then orEmpty (status d)
           else if int j = col ''Email'' sheet then orEmpty (email d)
           else if int j = col ''Phone'' sheet then orEmpty (phone d)
           else if int j = col ''Assigned Tasks'' sheet then tv
           else ''''))"
  proof (intro allI conjI impI)
    fix tv
    show "length (mergedRow ?hs d tv) = length ?hs" by (rule length_mergedRow)
    fix j assume jl: "j < length ?hs"
    show "mergedRow ?hs d tv ! j =
          (if int j = col ''Name'' sheet then orEmpty (name d)
           else if int j = col ''Category'' sheet then orEmpty (category d)
           else if int j = col ''Role/Position'' sheet then orEmpty (role d)
           else if int j = col ''Status'' sheet then orEmpty (status d)
           else if int j = col ''Email'' sheet then orEmpty (email d)
           else if int j = col ''Phone'' sheet then orEmpty (phone d)
           else if int j = col ''Assigned Tasks'' sheet then tv
           else '''')"
      unfolding nth_mergedRow [OF jl] by (rule mergedCell_by_column)
  qed
  have role: "''Role/Position'' \<notin> set ?hs \<longrightarrow>
        (\<forall>v. people (addOrUpdatePersonInPeopleSheet (d\<lparr>role := v\<rparr>) ss) = people ?after)"
  proof (intro impI allI)
    fix v
    assume "''Role/Position'' \<notin> set ?hs"
    then have "\<And>tv. mergedRow ?hs (d\<lparr>role := v\<rparr>) tv = mergedRow ?hs d tv"
      by (rule mergedRow_role_absent)
    with p req show "people (addOrUpdatePersonInPeopleSheet (d\<lparr>role := v\<rparr>) ss) = people ?after"
      by (intro people_depends_on_row) simp_all
  qed
  have status: "''Status'' \<notin> set ?hs \<longrightarrow>
        (\<forall>v. people (addOrUpdatePersonInPeopleSheet (d\<lparr>status := v\<rparr>) ss) = people ?after)"
  proof (intro impI allI)
    fix v
    assume "''Status'' \<notin> set ?hs"
    then have "\<And>tv. mergedRow ?hs (d\<lparr>status := v\<rparr>) tv = mergedRow ?hs d tv"
      by (rule mergedRow_status_absent)
    with p req show "people (addOrUpdatePersonInPeopleSheet (d\<lparr>status := v\<rparr>) ss) = people ?after"
      by (intro people_depends_on_row) simp_all
  qed
  have phone: "''Phone'' \<notin> set ?hs \<longrightarrow>
        (\<forall>v. people (addOrUpdatePersonInPeopleSheet (d\<lparr>phone := v\<rparr>) ss) = people ?after)"
  proof (intro impI allI)
    fix v
    assume "''Phone'' \<notin> set ?hs"
    then have "\<And>tv. mergedRow ?hs (d\<lparr>phone := v\<rparr>) tv = mergedRow ?hs d tv"
      by (rule mergedRow_phone_absent)
    with p req show "people (addOrUpdatePersonInPeopleSheet (d\<lparr>phone := v\<rparr>) ss) = people ?after"
      by (intro people_depends_on_row) simp_all
  qed
  from always first none cells role status phone show ?thesis
    by (intro conjI)
qed

theorem C10_witness:
  "people (addOrUpdatePersonInPeopleSheet annContact
        \<lparr>people = Some headerOnlyRoster, logger = []\<rparr>) =
     Some [[''Name'', ''Category'', ''Email''], [''Ann B'', ''Staff'', ''a@x.com'']] \<and>
   logger (addOrUpdatePersonInPeopleSheet annContact
        \<lparr>people = Some headerOnlyRoster, logger = []\<rparr>) =
     [AddedNew (Some ''Ann B'') (Some ''a@x.com'') 2] \<and>
   people (addOrUpdatePersonInPeopleSheet annContact
        \<lparr>people = Some phoneRoster, logger = []\<rparr>) =
     Some [[''Email'', ''Phone'', ''Name'', ''Category''],
           [''a@x.com'', ''555'', ''Ann B'', ''Staff'']] \<and>
   people (addOrUpdatePersonInPeopleSheet annContact
        \<lparr>people = Some duplicateRoster, logger = []\<rparr>) =
     Some [[''Name'', ''Category'', ''Email''],
           [''Ann B'', ''Staff'', ''a@x.com''],
           [''Al'', ''Staff'', ''a@x.com'']] \<and>
   logger (addOrUpdatePersonInPeopleSheet annContact
        \<lparr>people = Some duplicateRoster, logger = []\<rparr>) =
     [UpdatedExisting (Some ''Ann B'') (Some ''a@x.com'') 2] \<and>
   people (addOrUpdatePersonInPeopleSheet (annContact\<lparr>role := Some ''Usher''\<rparr>)
        \<lparr>people = Some headerOnlyRoster, logger = []\<rparr>) =
     people (addOrUpdatePersonInPeopleSheet annContact
        \<lparr>people = Some headerOnlyRoster, logger = []\<rparr>) \<and>
   people (addOrUpdatePersonInPeopleSheet (annContact\<lparr>status := None\<rparr>)
        \<lparr>people = Some headerOnlyRoster, logger = []\<rparr>) =
     people (addOrUpdatePersonInPeopleSheet annContact
        \<lparr>people = Some headerOnlyRoster, logger = []\<rparr>) \<and>
   people (addOrUpdatePersonInPeopleSheet (annContact\<lparr>phone := Some ''999''\<rparr>)
        \<lparr>people = Some headerOnlyRoster, logger = []\<rparr>) =
     people (addOrUpdatePersonInPeopleSheet annContact
        \<lparr>people = Some headerOnlyRoster, logger = []\<rparr>)"
proof -
  have p0: "people \<lparr>people = Some headerOnlyRoster, logger = []\<rparr> = Some headerOnlyRoster"
    and pp: "people \<lparr>people = Some phoneRoster, logger = []\<rparr> = Some phoneRoster"
    and pd: "people \<lparr>people = Some duplicateRoster, logger = []\<rparr> = Some duplicateRoster"
    by simp_all
  note fresh = C10_optional_columns_may_be_absent
    [of "\<lparr>people = Some headerOnlyRoster, logger = []\<rparr>" headerOnlyRoster annContact,
      OF p0 headerOnlyRoster_required]
  note wide = C10_optional_columns_may_be_absent
    [of "\<lparr>people = Some phoneRoster, logger = []\<rparr>" phoneRoster annContact,
      OF pp phoneRoster_required]
  note dup = C10_optional_columns_may_be_absent
    [of "\<lparr>people = Some duplicateRoster, logger = []\<rparr>" duplicateRoster annContact,
      OF pd duplicateRoster_required]
  have none0: "\<forall>i. 1 \<le> i \<and> i < length headerOnlyRoster \<longrightarrow>
      emailCell headerOnlyRoster i \<noteq> email annContact"
    by (simp add: headerOnlyRoster_def)
  have nonep: "\<forall>i. 1 \<le> i \<and> i < length phoneRoster \<longrightarrow>
      emailCell phoneRoster i \<noteq> email annContact"
    by (simp add: phoneRoster_def)
  have first: "1 \<le> (1::nat) \<and> 1 < length duplicateRoster \<and>
      emailCell duplicateRoster 1 = email annContact \<and>
      (\<forall>j. 1 \<le> j \<and> j < 1 \<longrightarrow> emailCell duplicateRoster j \<noteq> email annContact)"
    using duplicateRoster_match unfolding existingRowIndex_some .
  have row0: "setValues headerOnlyRoster (getLastRow headerOnlyRoster + 1)
        (mergedRow (getHeaders headerOnlyRoster) annContact '''') =
      [[''Name'', ''Category'', ''Email''], [''Ann B'', ''Staff'', ''a@x.com'']]"
    by code_simp
  have rowp: "setValues phoneRoster (getLastRow phoneRoster + 1)
        (mergedRow (getHeaders phoneRoster) annContact '''') =
      [[''Email'', ''Phone'', ''Name'', ''Category''], [''a@x.com'', ''555'', ''Ann B'', ''Staff'']]"
    by code_simp
  have rowd: "setValues duplicateRoster (int 1 + 1)
        (mergedRow (getHeaders duplicateRoster) annContact
           (getValue duplicateRoster (int 1 + 1) (col ''Assigned Tasks'' duplicateRoster + 1))) =
      [[''Name'', ''Category'', ''Email''], [''Ann B'', ''Staff'', ''a@x.com''],
       [''Al'', ''Staff'', ''a@x.com'']]"
    by code_simp
  have l0: "getLastRow headerOnlyRoster + 1 = 2"
    by (simp add: getLastRow_def headerOnlyRoster_def)
  have names: "name annContact = Some ''Ann B''" "email annContact = Some ''a@x.com''"
    by (simp_all add: annContact_def)
  have absent: "''Role/Position'' \<notin> set (getHeaders headerOnlyRoster)"
    "''Status'' \<notin> set (getHeaders headerOnlyRoster)"
    "''Phone'' \<notin> set (getHeaders headerOnlyRoster)"
    by (simp_all add: headerOnlyRoster_def getHeaders_def)
  from fresh none0 have
    "people (addOrUpdatePersonInPeopleSheet annContact
        \<lparr>people = Some headerOnlyRoster, logger = []\<rparr>) =
       Some (setValues headerOnlyRoster (getLastRow headerOnlyRoster + 1)
         (mergedRow (getHeaders headerOnlyRoster) annContact ''''))"
    "logger (addOrUpdatePersonInPeopleSheet annContact
        \<lparr>people = Some headerOnlyRoster, logger = []\<rparr>) =
       logger \<lparr>people = Some headerOnlyRoster, logger = []\<rparr> @
         [AddedNew (name annContact) (email annContact) (getLastRow headerOnlyRoster + 1)]"
    by blast+
  then have a: "people (addOrUpdatePersonInPeopleSheet annContact
        \<lparr>people = Some headerOnlyRoster, logger = []\<rparr>) =
     Some [[''Name'', ''Category'', ''Email''], [''Ann B'', ''Staff'', ''a@x.com'']]"
    and al: "logger (addOrUpdatePersonInPeopleSheet annContact
        \<lparr>people = Some headerOnlyRoster, logger = []\<rparr>) =
     [AddedNew (Some ''Ann B'') (Some ''a@x.com'') 2]"
    unfolding row0 unfolding l0 names by simp_all
  from wide nonep have
    "people (addOrUpdatePersonInPeopleSheet annContact
        \<lparr>people = Some phoneRoster, logger = []\<rparr>) =
       Some (setValues phoneRoster (getLastRow phoneRoster + 1)
         (mergedRow (getHeaders phoneRoster) annContact ''''))"
    by blast
  then have b: "people (addOrUpdatePersonInPeopleSheet annContact
        \<lparr>people = Some phoneRoster, logger = []\<rparr>) =
     Some [[''Email'', ''Phone'', ''Name'', ''Category''],
           [''a@x.com'', ''555'', ''Ann B'', ''Staff'']]"
    unfolding rowp .
  from dup first have
    "people (addOrUpdatePersonInPeopleSheet annContact
        \<lparr>people = Some duplicateRoster, logger = []\<rparr>) =
       Some (setValues duplicateRoster (int 1 + 1)
         (mergedRow (getHeaders duplicateRoster) annContact
           (getValue duplicateRoster (int 1 + 1) (col ''Assigned Tasks'' duplicateRoster + 1))))"
    "logger (addOrUpdatePersonInPeopleSheet annContact
        \<lparr>people = Some duplicateRoster, logger = []\<rparr>) =
       logger \<lparr>people = Some duplicateRoster, logger = []\<rparr> @
         [UpdatedExisting (name annContact) (email annContact) (int 1 + 1)]"
    by blast+
  then have c: "people (addOrUpdatePersonInPeopleSheet annContact
        \<lparr>people = Some duplicateRoster, logger = []\<rparr>) =
     Some [[''Name'', ''Category'', ''Email''],
           [''Ann B'', ''Staff'', ''a@x.com''],
           [''Al'', ''Staff'', ''a@x.com'']]"
    and cl: "logger (addOrUpdatePersonInPeopleSheet annContact
        \<lparr>people = Some duplicateRoster, logger = []\<rparr>) =
     [UpdatedExisting (Some ''Ann B'') (Some ''a@x.com'') 2]"
    unfolding rowd names by simp_all
  from fresh absent have r: "people (addOrUpdatePersonInPeopleSheet (annContact\<lparr>role := Some ''Usher''\<rparr>)
        \<lparr>people = Some headerOnlyRoster, logger = []\<rparr>) =
     people (addOrUpdatePersonInPeopleSheet annContact
        \<lparr>people = Some headerOnlyRoster, logger = []\<rparr>)"
    and s: "people (addOrUpdatePersonInPeopleSheet (annContact\<lparr>status := None\<rparr>)
        \<lparr>people = Some headerOnlyRoster, logger = []\<rparr>) =
     people (addOrUpdatePersonInPeopleSheet annContact
        \<lparr>people = Some headerOnlyRoster, logger = []\<rparr>)"
    and ph: "people (addOrUpdatePersonInPeopleSheet (annContact\<lparr>phone := Some ''999''\<rparr>)
        \<lparr>people = Some headerOnlyRoster, logger = []\<rparr>) =
     people (addOrUpdatePersonInPeopleSheet annContact
        \<lparr>people = Some headerOnlyRoster, logger = []\<rparr>)"
    by blast+
  from a al b c cl r s ph show ?thesis by (intro conjI)
qed

end
